theory Spec2Isabelle
  imports Complex_Main "HOL-Library.Product_Lexorder"
begin

section \<open>Numbers and strings of the runtime\<close>

text \<open>
  The counters of the cache are stored as decimal strings and read back with
  \<^verbatim>\<open>parseInt\<close>. The numbers of the runtime are doubles. They are modelled as \<open>int\<close>,
  with \<open>NaN\<close> as \<open>None\<close>, and the model is the runtime's on the safe integers, those of
  absolute value up to \<open>2^53 - 1\<close>: a double holds each of them exactly, and
  \<^verbatim>\<open>parseInt\<close>, \<open>+ 1\<close>, \<open>- 1\<close> and \<^verbatim>\<open>toString\<close> compute on them without rounding and
  without an exponent. Beyond them the runtime rounds, and prints an exponent from
  \<open>10^21\<close> on, which the model does not follow; a statement about a counter of unknown
  size therefore assumes \<open>safeInteger\<close>. Times are milliseconds since the epoch, as
  \<^verbatim>\<open>Date.now()\<close> gives them.
\<close>

text \<open>\<^verbatim>\<open>Number.isSafeInteger\<close> on an integer.\<close>

definition safeInteger :: "int \<Rightarrow> bool" where
  "safeInteger i = (- 9007199254740991 \<le> i \<and> i \<le> 9007199254740991)"

definition isDigit :: "char \<Rightarrow> bool" where
  "isDigit c = (48 \<le> (of_char c :: nat) \<and> (of_char c :: nat) \<le> 57)"

definition digitValue :: "char \<Rightarrow> int" where
  "digitValue c = int (of_char c) - 48"

definition isHexDigit :: "char \<Rightarrow> bool" where
  "isHexDigit c = (isDigit c
     \<or> (97 \<le> (of_char c :: nat) \<and> (of_char c :: nat) \<le> 102)
     \<or> (65 \<le> (of_char c :: nat) \<and> (of_char c :: nat) \<le> 70))"

definition hexDigitValue :: "char \<Rightarrow> int" where
  "hexDigitValue c =
     (if isDigit c then digitValue c
      else if 97 \<le> (of_char c :: nat) then int (of_char c) - 87
      else int (of_char c) - 55)"

definition isWhiteSpace :: "char \<Rightarrow> bool" where
  "isWhiteSpace c = ((of_char c :: nat) = 9 \<or> (of_char c :: nat) = 10 \<or> (of_char c :: nat) = 11
     \<or> (of_char c :: nat) = 12 \<or> (of_char c :: nat) = 13 \<or> (of_char c :: nat) = 32
     \<or> (of_char c :: nat) = 160)"

fun digitsValue :: "int \<Rightarrow> (char \<Rightarrow> int) \<Rightarrow> int \<Rightarrow> string \<Rightarrow> int" where
  "digitsValue radix dv acc [] = acc"
| "digitsValue radix dv acc (c # cs) = digitsValue radix dv (acc * radix + dv c) cs"

text \<open>
  \<^verbatim>\<open>parseInt(s)\<close> with no radix: leading white space is skipped, a sign is read,
  a \<^verbatim>\<open>0x\<close> prefix selects base 16, and the longest run of digits is the value;
  with no digit the result is \<open>NaN\<close>. The result is the runtime's when it is a safe
  integer.
\<close>

definition parseInt :: "string \<Rightarrow> int option" where
  "parseInt s =
     (let t = dropWhile isWhiteSpace s;
          neg = (case t of c # _ \<Rightarrow> c = CHR ''-'' | [] \<Rightarrow> False);
          u = (case t of c # r \<Rightarrow> if c = CHR ''-'' \<or> c = CHR ''+'' then r else t | [] \<Rightarrow> t);
          hex = (case u of a # b # _ \<Rightarrow> a = CHR ''0'' \<and> (b = CHR ''x'' \<or> b = CHR ''X'') | _ \<Rightarrow> False);
          ds = (if hex then takeWhile isHexDigit (drop 2 u) else takeWhile isDigit u);
          n = (if hex then digitsValue 16 hexDigitValue 0 ds else digitsValue 10 digitValue 0 ds)
      in if ds = [] then None else Some (if neg then - n else n))"

text \<open>\<^verbatim>\<open>parseInt(v) || 0\<close>: \<open>NaN\<close> and \<open>0\<close> are falsy.\<close>

definition orZero :: "int option \<Rightarrow> int" where
  "orZero n = (case n of None \<Rightarrow> 0 | Some i \<Rightarrow> i)"

definition digitChar :: "nat \<Rightarrow> char" where
  "digitChar d = char_of (48 + d)"

fun digitsOf :: "nat \<Rightarrow> string" where
  "digitsOf n = (if n < 10 then [digitChar n] else digitsOf (n div 10) @ [digitChar (n mod 10)])"

declare digitsOf.simps [simp del]

text \<open>\<^verbatim>\<open>n.toString()\<close> of a safe integer: its decimal digits, with a sign when negative.\<close>

definition toString :: "int \<Rightarrow> string" where
  "toString i = (if i < 0 then CHR ''-'' # digitsOf (nat (- i)) else digitsOf (nat i))"

section \<open>MemoryCacheService: the expiring key/value store\<close>

text \<open>
  \<^verbatim>\<open>interface CacheEntry { value: string; expiresAt: number }\<close>; an
  \<open>expiresAt\<close> of 0 is falsy and means that the entry never expires.
\<close>

record CacheEntry =
  entryValue :: string
  expiresAt :: int

text \<open>
  The \<^verbatim>\<open>Map<string, CacheEntry>\<close> keeps its keys in insertion order: \<^verbatim>\<open>set\<close> on a
  key that is there replaces the value in place, on a new key appends;
  \<^verbatim>\<open>keys().next().value\<close> is the first key.
\<close>

type_synonym CacheMap = "(string \<times> CacheEntry) list"

primrec Map_set :: "string \<Rightarrow> CacheEntry \<Rightarrow> CacheMap \<Rightarrow> CacheMap" where
  "Map_set k v [] = [(k, v)]"
| "Map_set k v (p # ps) = (if fst p = k then (k, v) # ps else p # Map_set k v ps)"

definition Map_delete :: "string \<Rightarrow> CacheMap \<Rightarrow> CacheMap" where
  "Map_delete k m = filter (\<lambda>p. fst p \<noteq> k) m"

definition Map_get :: "CacheMap \<Rightarrow> string \<Rightarrow> CacheEntry option" where
  "Map_get m k = map_of m k"

definition Map_has :: "string \<Rightarrow> CacheMap \<Rightarrow> bool" where
  "Map_has k m = (Map_get m k \<noteq> None)"

definition Map_size :: "CacheMap \<Rightarrow> nat" where
  "Map_size m = length m"

record MemoryCacheService =
  cache :: CacheMap
  maxSize :: nat

text \<open>The constructor: an empty map, \<^verbatim>\<open>maxSize = 10000\<close>.\<close>

definition newMemoryCacheService :: MemoryCacheService where
  "newMemoryCacheService = \<lparr>cache = [], maxSize = 10000\<rparr>"

text \<open>\<^verbatim>\<open>entry.expiresAt && Date.now() > entry.expiresAt\<close>\<close>

definition expired :: "int \<Rightarrow> CacheEntry \<Rightarrow> bool" where
  "expired now entry = (expiresAt entry \<noteq> 0 \<and> now > expiresAt entry)"

definition get :: "int \<Rightarrow> string \<Rightarrow> MemoryCacheService \<Rightarrow> string option \<times> MemoryCacheService" where
  "get now key s =
     (case Map_get (cache s) key of
        None \<Rightarrow> (None, s)
      | Some entry \<Rightarrow>
          if expired now entry then (None, s\<lparr>cache := Map_delete key (cache s)\<rparr>)
          else (Some (entryValue entry), s))"

text \<open>
  \<^verbatim>\<open>set(key, value, ttl?)\<close>: a missing \<open>ttl\<close> is \<open>None\<close>; \<^verbatim>\<open>if (firstKey)\<close> is false
  for the empty map and for the empty string.
\<close>

definition set_entry :: "int \<Rightarrow> string \<Rightarrow> string \<Rightarrow> int option \<Rightarrow> MemoryCacheService \<Rightarrow> MemoryCacheService" where
  "set_entry now key v ttl s =
     (let m = (if Map_size (cache s) \<ge> maxSize s \<and> \<not> Map_has key (cache s)
               then (case cache s of
                       [] \<Rightarrow> cache s
                     | (firstKey, _) # _ \<Rightarrow>
                         if firstKey \<noteq> [] then Map_delete firstKey (cache s) else cache s)
               else cache s);
          e = (case ttl of
                 None \<Rightarrow> 0
               | Some t \<Rightarrow> if t \<noteq> 0 then now + t * 1000 else 0)
      in s\<lparr>cache := Map_set key \<lparr>entryValue = v, expiresAt = e\<rparr> m\<rparr>)"

definition setex :: "int \<Rightarrow> string \<Rightarrow> int \<Rightarrow> string \<Rightarrow> MemoryCacheService \<Rightarrow> MemoryCacheService" where
  "setex now key ttl v s = set_entry now key v (Some ttl) s"

definition del :: "string \<Rightarrow> MemoryCacheService \<Rightarrow> nat \<times> MemoryCacheService" where
  "del key s =
     (if Map_has key (cache s) then (1, s\<lparr>cache := Map_delete key (cache s)\<rparr>) else (0, s))"

definition exists_key :: "int \<Rightarrow> string \<Rightarrow> MemoryCacheService \<Rightarrow> bool \<times> MemoryCacheService" where
  "exists_key now key s =
     (case Map_get (cache s) key of
        None \<Rightarrow> (False, s)
      | Some entry \<Rightarrow>
          if expired now entry then (False, s\<lparr>cache := Map_delete key (cache s)\<rparr>)
          else (True, s))"

definition expire :: "int \<Rightarrow> string \<Rightarrow> int \<Rightarrow> MemoryCacheService \<Rightarrow> bool \<times> MemoryCacheService" where
  "expire now key ttl s =
     (case Map_get (cache s) key of
        None \<Rightarrow> (False, s)
      | Some entry \<Rightarrow>
          (True, s\<lparr>cache := Map_set key (entry\<lparr>expiresAt := now + ttl * 1000\<rparr>) (cache s)\<rparr>))"

definition ttl :: "int \<Rightarrow> string \<Rightarrow> MemoryCacheService \<Rightarrow> int" where
  "ttl now key s =
     (case Map_get (cache s) key of
        None \<Rightarrow> - 1
      | Some entry \<Rightarrow>
          if expiresAt entry = 0 then - 1
          else (let remaining = (expiresAt entry - now) div 1000
                in if remaining > 0 then remaining else - 2))"

text \<open>The value a counter operation reads: 0 for an absent or expired entry.\<close>

definition currentValue :: "int \<Rightarrow> CacheEntry option \<Rightarrow> int" where
  "currentValue now entry =
     (case entry of
        None \<Rightarrow> 0
      | Some e \<Rightarrow>
          if expiresAt e = 0 \<or> now \<le> expiresAt e then orZero (parseInt (entryValue e)) else 0)"

text \<open>\<^verbatim>\<open>entry?.expiresAt || 0\<close>\<close>

definition keptExpiresAt :: "CacheEntry option \<Rightarrow> int" where
  "keptExpiresAt entry = (case entry of None \<Rightarrow> 0 | Some e \<Rightarrow> expiresAt e)"

definition incr :: "int \<Rightarrow> string \<Rightarrow> MemoryCacheService \<Rightarrow> int \<times> MemoryCacheService" where
  "incr now key s =
     (let entry = Map_get (cache s) key;
          newValue = currentValue now entry + 1
      in (newValue,
          s\<lparr>cache := Map_set key \<lparr>entryValue = toString newValue, expiresAt = keptExpiresAt entry\<rparr>
                         (cache s)\<rparr>))"

definition decr :: "int \<Rightarrow> string \<Rightarrow> MemoryCacheService \<Rightarrow> int \<times> MemoryCacheService" where
  "decr now key s =
     (let entry = Map_get (cache s) key;
          newValue = max 0 (currentValue now entry - 1)
      in (newValue,
          s\<lparr>cache := Map_set key \<lparr>entryValue = toString newValue, expiresAt = keptExpiresAt entry\<rparr>
                         (cache s)\<rparr>))"

text \<open>The operations a caller can issue, and a run of them from left to right.\<close>

datatype CacheOp =
    OpSet string string "int option"
  | OpSetex string int string
  | OpIncr string
  | OpDecr string
  | OpExpire string int
  | OpDel string

fun applyOp :: "int \<Rightarrow> CacheOp \<Rightarrow> MemoryCacheService \<Rightarrow> MemoryCacheService" where
  "applyOp now (OpSet key v t) s = set_entry now key v t s"
| "applyOp now (OpSetex key t v) s = setex now key t v s"
| "applyOp now (OpIncr key) s = snd (incr now key s)"
| "applyOp now (OpDecr key) s = snd (decr now key s)"
| "applyOp now (OpExpire key t) s = snd (expire now key t s)"
| "applyOp now (OpDel key) s = snd (del key s)"

fun runOps :: "int \<Rightarrow> CacheOp list \<Rightarrow> MemoryCacheService \<Rightarrow> MemoryCacheService" where
  "runOps now [] s = s"
| "runOps now (op # ops) s = runOps now ops (applyOp now op s)"

section \<open>CacheService: the cache-aside facade\<close>

text \<open>
  The values of the generic type \<open>T\<close> are JSON data; \<^verbatim>\<open>null\<close> is \<open>JNull\<close>. A thrown
  value is an error with its message.
\<close>

datatype json =
    JNull
  | JBool bool
  | JNum int
  | JStr string
  | JArr "json list"
  | JObj "(string \<times> json) list"

datatype thrown = Error string

text \<open>
  \<^verbatim>\<open>JSON.parse\<close> and \<^verbatim>\<open>JSON.stringify\<close> are built-ins of the runtime, not code of
  the repository: the facade takes them as a parameter. \<^verbatim>\<open>JSON.parse\<close> throws on a
  text that is not JSON; \<^verbatim>\<open>JSON.stringify\<close> does not throw on JSON data.
\<close>

record JSON =
  JSON_parse :: "string \<Rightarrow> thrown + json"
  JSON_stringify :: "json \<Rightarrow> string"

text \<open>
  An instance of the two built-ins on the literals \<^verbatim>\<open>null\<close>, \<^verbatim>\<open>true\<close>, \<^verbatim>\<open>false\<close> and on
  integer numerals, for evaluating the facade on concrete inputs. Other texts and values
  are outside it.
\<close>

definition literalParse :: "string \<Rightarrow> thrown + json" where
  "literalParse s =
     (if s = ''null'' then Inr JNull
      else if s = ''true'' then Inr (JBool True)
      else if s = ''false'' then Inr (JBool False)
      else (case parseInt s of
              Some n \<Rightarrow> if toString n = s then Inr (JNum n) else Inl (Error ''SyntaxError'')
            | None \<Rightarrow> Inl (Error ''SyntaxError'')))"

fun literalStringify :: "json \<Rightarrow> string" where
  "literalStringify JNull = ''null''"
| "literalStringify (JBool b) = (if b then ''true'' else ''false'')"
| "literalStringify (JNum n) = toString n"
| "literalStringify _ = []"

definition literalJSON :: JSON where
  "literalJSON = \<lparr>JSON_parse = literalParse, JSON_stringify = literalStringify\<rparr>"

record CacheOptions =
  opt_ttl :: "int option"
  opt_prefix :: "string option"
  opt_serialize :: "bool option"

text \<open>\<^verbatim>\<open>options: CacheOptions = {}\<close>\<close>

definition noOptions :: CacheOptions where
  "noOptions = \<lparr>opt_ttl = None, opt_prefix = None, opt_serialize = None\<rparr>"

definition defaultTTL :: int where
  "defaultTTL = 3600"

text \<open>\<^verbatim>\<open>if (prefix)\<close>: a missing and an empty prefix are both falsy.\<close>

definition buildKey :: "string \<Rightarrow> string option \<Rightarrow> string" where
  "buildKey key prefix =
     (case prefix of
        None \<Rightarrow> key
      | Some p \<Rightarrow> if p \<noteq> [] then p @ '':'' @ key else key)"

text \<open>
  \<^verbatim>\<open>CacheService.get\<close>: \<^verbatim>\<open>!value\<close> holds for \<^verbatim>\<open>null\<close> and for the empty string; an
  error of \<^verbatim>\<open>JSON.parse\<close> is caught and gives \<^verbatim>\<open>null\<close>.
\<close>

definition CacheService_get ::
  "JSON \<Rightarrow> int \<Rightarrow> string \<Rightarrow> CacheOptions \<Rightarrow> MemoryCacheService \<Rightarrow> json \<times> MemoryCacheService" where
  "CacheService_get J now key options s =
     (let fullKey = buildKey key (opt_prefix options)
      in case get now fullKey s of
           (v, s') \<Rightarrow>
             (case v of
                None \<Rightarrow> (JNull, s')
              | Some str \<Rightarrow>
                  if str = [] then (JNull, s')
                  else if opt_serialize options \<noteq> Some False
                  then (case JSON_parse J str of
                          Inr x \<Rightarrow> (x, s')
                        | Inl error \<Rightarrow> (JNull, s'))
                  else (JStr str, s')))"

text \<open>
  \<^verbatim>\<open>value as string\<close>: with serialization off the declared type of the value is
  \<open>string\<close>; the cast is modelled on strings only.
\<close>

fun asString :: "json \<Rightarrow> string" where
  "asString (JStr str) = str"

definition effectiveTTL :: "CacheOptions \<Rightarrow> int" where
  "effectiveTTL options =
     (case opt_ttl options of
        None \<Rightarrow> defaultTTL
      | Some t \<Rightarrow> if t \<noteq> 0 then t else defaultTTL)"

definition CacheService_set ::
  "JSON \<Rightarrow> int \<Rightarrow> string \<Rightarrow> json \<Rightarrow> CacheOptions \<Rightarrow> MemoryCacheService \<Rightarrow> bool \<times> MemoryCacheService" where
  "CacheService_set J now key v options s =
     (let fullKey = buildKey key (opt_prefix options);
          t = effectiveTTL options;
          serializedValue =
            (if opt_serialize options \<noteq> Some False then JSON_stringify J v else asString v)
      in (True, setex now fullKey t serializedValue s))"

text \<open>
  \<^verbatim>\<open>getOrSet\<close>. The factory is an effectful call: \<open>factory i\<close> is what its invocation
  number \<open>i\<close> (from 0) within this call does, a returned value or a thrown error. The
  result is the outcome for the caller, the number of invocations of the factory, and
  the store. \<open>now\<close> is the time of the lookup, \<open>later\<close> the time of the store after the
  factory has returned. \<^verbatim>\<open>this.get\<close> and \<^verbatim>\<open>this.set\<close> catch every error themselves,
  so inside the \<^verbatim>\<open>try\<close> only the factory can throw.
\<close>

definition getOrSet ::
  "JSON \<Rightarrow> int \<Rightarrow> int \<Rightarrow> string \<Rightarrow> (nat \<Rightarrow> thrown + json) \<Rightarrow> CacheOptions \<Rightarrow> MemoryCacheService
     \<Rightarrow> (thrown + json) \<times> nat \<times> MemoryCacheService" where
  "getOrSet J now later key factory options s =
     (case CacheService_get J now key options s of
        (cached, s1) \<Rightarrow>
          if cached \<noteq> JNull then (Inr cached, 0, s1)
          else (case factory 0 of
                  Inr v \<Rightarrow> (Inr v, 1, snd (CacheService_set J later key v options s1))
                | Inl error \<Rightarrow> (factory 1, 2, s1)))"

section \<open>RateLimitGuard\<close>

record RateLimit =
  limit_max :: int
  limit_window :: int

text \<open>
  The outcome of \<^verbatim>\<open>canActivate\<close>: \<^verbatim>\<open>true\<close>, or the payload of the thrown
  \<^verbatim>\<open>HttpException\<close> (\<open>resetTime\<close> in milliseconds).
\<close>

datatype Activation =
    Allowed
  | TooManyRequests (retryAfter: int) (limit: int) (remaining: int) (resetTime: int)

text \<open>\<^verbatim>\<open>X-RateLimit-Remaining\<close>: \<^verbatim>\<open>Math.max(0, limits.max - currentCount - 1)\<close>, \<open>NaN\<close> for a \<open>NaN\<close> count.\<close>

definition headerRemaining :: "int option \<Rightarrow> RateLimit \<Rightarrow> int option" where
  "headerRemaining currentCount limits =
     (case currentCount of
        None \<Rightarrow> None
      | Some c \<Rightarrow> Some (max 0 (limit_max limits - c - 1)))"

definition getTTL :: "int \<Rightarrow> string \<Rightarrow> MemoryCacheService \<Rightarrow> int" where
  "getTTL now key s = (let t = ttl now key s in if t > 0 then t else 0)"

text \<open>
  The \<^verbatim>\<open>try\<close> block of \<^verbatim>\<open>canActivate\<close>, for the \<open>key\<close> and the \<open>limits\<close> computed before
  it, at the time \<open>now\<close> of the request. The result is the outcome, the value of the
  \<^verbatim>\<open>X-RateLimit-Remaining\<close> header, and the store.
\<close>

definition canActivate ::
  "int \<Rightarrow> string \<Rightarrow> RateLimit \<Rightarrow> MemoryCacheService \<Rightarrow> Activation \<times> int option \<times> MemoryCacheService" where
  "canActivate now key limits s =
     (case get now key s of
        (current, s1) \<Rightarrow>
          (let count = (case current of
                          None \<Rightarrow> Some 0
                        | Some c \<Rightarrow> if c \<noteq> [] then parseInt c else Some 0);
               hdr = headerRemaining count limits
           in if (case count of None \<Rightarrow> False | Some n \<Rightarrow> n \<ge> limit_max limits)
              then (let r = limit_window limits - getTTL now key s1
                    in (TooManyRequests r (limit_max limits) 0 (now + r * 1000), hdr, s1))
              else if count = Some 0
              then (Allowed, hdr, setex now key (limit_window limits) ''1'' s1)
              else (Allowed, hdr, snd (incr now key s1))))"

text \<open>Requests one after the other, each at its own time; the outcomes in order.\<close>

fun requests :: "int list \<Rightarrow> string \<Rightarrow> RateLimit \<Rightarrow> MemoryCacheService \<Rightarrow> Activation list \<times> MemoryCacheService" where
  "requests [] key limits s = ([], s)"
| "requests (now # rest) key limits s =
     (case canActivate now key limits s of
        (a, _, s1) \<Rightarrow> (case requests rest key limits s1 of (as, s2) \<Rightarrow> (a # as, s2)))"

section \<open>TokenBlacklistService\<close>

definition blacklistToken :: "int \<Rightarrow> string \<Rightarrow> string \<Rightarrow> int \<Rightarrow> MemoryCacheService \<Rightarrow> MemoryCacheService" where
  "blacklistToken now token userId expiresIn s =
     (let key = ''blacklist:'' @ token;
          t = max expiresIn 3600
      in setex now key t userId s)"

text \<open>
  The service receives its cache by injection; \<open>cacheGet\<close> is the \<^verbatim>\<open>get\<close> of the injected
  cache, which returns or throws. \<^verbatim>\<open>!!result\<close> is false for \<^verbatim>\<open>null\<close> and for the empty
  string.
\<close>

definition isTokenBlacklisted ::
  "(string \<Rightarrow> 'st \<Rightarrow> thrown + (string option \<times> 'st)) \<Rightarrow> string \<Rightarrow> 'st \<Rightarrow> bool \<times> 'st" where
  "isTokenBlacklisted cacheGet token st =
     (let key = ''blacklist:'' @ token
      in case cacheGet key st of
           Inr (result, st') \<Rightarrow> ((case result of None \<Rightarrow> False | Some r \<Rightarrow> r \<noteq> []), st')
         | Inl error \<Rightarrow> (False, st))"

text \<open>The injected cache of the application: \<^verbatim>\<open>MemoryCacheService.get\<close>, which never throws.\<close>

definition memoryGet :: "int \<Rightarrow> string \<Rightarrow> MemoryCacheService \<Rightarrow> thrown + (string option \<times> MemoryCacheService)" where
  "memoryGet now key s = Inr (get now key s)"

section \<open>LeaderboardsRepository: the overall leaderboard\<close>

text \<open>
  The tables the query of \<^verbatim>\<open>calculateOverallLeaderboard\<close> reads, with the columns it
  uses. \<open>id\<close> is the primary key of each table; \<open>score\<close> is nullable.
\<close>

datatype UserStatus = ACTIVE | INACTIVE | SUSPENDED

datatype SubmissionStatus = PENDING | APPROVED | REJECTED

record User =
  user_id :: string
  firstName :: string
  lastName :: string
  email :: string
  avatarUrl :: "string option"
  user_status :: UserStatus

record Submission =
  submission_id :: string
  submission_userId :: string
  score :: "int option"
  submission_status :: SubmissionStatus
  createdAt :: int

record Badge =
  badge_id :: string

record Database =
  users :: "User list"
  submissions :: "Submission list"
  badges :: "Badge list"

datatype TimeRange = Week | Month | All

definition getDateFilter :: "int \<Rightarrow> TimeRange option \<Rightarrow> int option" where
  "getDateFilter now timeRange =
     (case timeRange of
        None \<Rightarrow> None
      | Some All \<Rightarrow> None
      | Some Week \<Rightarrow> Some (now - 7 * 24 * 60 * 60 * 1000)
      | Some Month \<Rightarrow> Some (now - 30 * 24 * 60 * 60 * 1000))"

text \<open>
  The rows of one user after the two \<^verbatim>\<open>LEFT JOIN\<close>s: the submissions of the user that
  pass the date condition (one row of \<open>NULL\<close>s when there is none), each paired with the
  badges whose \<open>id\<close> equals the user's \<open>id\<close> (\<open>NULL\<close> when there is none).
\<close>

definition leftJoin :: "'a list \<Rightarrow> 'a option list" where
  "leftJoin matches = (if matches = [] then [None] else map Some matches)"

definition joinedRows :: "int option \<Rightarrow> Database \<Rightarrow> User \<Rightarrow> (Submission option \<times> Badge option) list" where
  "joinedRows dateFilter db u =
     (let ss = leftJoin (filter (\<lambda>s. user_id u = submission_userId s
                                   \<and> (case dateFilter of None \<Rightarrow> True | Some d \<Rightarrow> createdAt s \<ge> d))
                          (submissions db));
          bs = leftJoin (filter (\<lambda>b. user_id u = badge_id b) (badges db))
      in concat (map (\<lambda>s. map (\<lambda>b. (s, b)) bs) ss))"

text \<open>The aggregates skip \<open>NULL\<close>; \<^verbatim>\<open>SUM\<close>, \<^verbatim>\<open>AVG\<close> and \<^verbatim>\<open>MAX\<close> of no value are \<open>NULL\<close>.\<close>

definition nonNull :: "'a option list \<Rightarrow> 'a list" where
  "nonNull xs = concat (map (\<lambda>x. case x of None \<Rightarrow> [] | Some v \<Rightarrow> [v]) xs)"

definition sql_SUM :: "int option list \<Rightarrow> int option" where
  "sql_SUM xs = (if nonNull xs = [] then None else Some (sum_list (nonNull xs)))"

definition sql_COUNT :: "'a option list \<Rightarrow> nat" where
  "sql_COUNT xs = length (nonNull xs)"

definition sql_AVG :: "int option list \<Rightarrow> rat option" where
  "sql_AVG xs =
     (if nonNull xs = [] then None
      else Some (of_int (sum_list (nonNull xs)) / of_nat (length (nonNull xs))))"

definition sql_MAX :: "int option list \<Rightarrow> int option" where
  "sql_MAX xs = (if nonNull xs = [] then None else Some (fold max (nonNull xs) (hd (nonNull xs))))"

definition sql_COALESCE :: "'a option \<Rightarrow> 'a \<Rightarrow> 'a" where
  "sql_COALESCE x d = (case x of None \<Rightarrow> d | Some v \<Rightarrow> v)"

text \<open>One row of the result of the query: the \<^verbatim>\<open>GROUP BY\<close> columns and the aggregates.\<close>

record Row =
  row_user :: User
  row_totalScore :: int
  row_totalSubmissions :: nat
  row_approvedSubmissions :: nat
  row_averageScore :: rat
  row_badges :: nat
  row_lastSubmissionAt :: "int option"

text \<open>
  A column of the joined rows that comes from the submission (\<open>NULL\<close> on the row of a
  user without submissions), and \<^verbatim>\<open>CASE WHEN s.status = 'APPROVED' THEN e END\<close>.
\<close>

definition s_column :: "(Submission \<Rightarrow> 'a option) \<Rightarrow> (Submission option \<times> Badge option) list \<Rightarrow> 'a option list" where
  "s_column f rows = map (\<lambda>(s, b). Option.bind s f) rows"

definition whenApproved :: "(Submission \<Rightarrow> 'a option) \<Rightarrow> Submission \<Rightarrow> 'a option" where
  "whenApproved f x = (if submission_status x = APPROVED then f x else None)"

definition groupRow :: "int option \<Rightarrow> Database \<Rightarrow> User \<Rightarrow> Row" where
  "groupRow dateFilter db u =
     (let rows = joinedRows dateFilter db u
      in \<lparr>row_user = u,
          row_totalScore = sql_COALESCE (sql_SUM (s_column score rows)) 0,
          row_totalSubmissions = sql_COUNT (s_column (\<lambda>x. Some (submission_id x)) rows),
          row_approvedSubmissions = sql_COUNT (s_column (whenApproved (\<lambda>x. Some (1::int))) rows),
          row_averageScore = sql_COALESCE (sql_AVG (s_column (whenApproved score) rows)) 0,
          row_badges = sql_COUNT (map (\<lambda>(s, b). map_option badge_id b) rows),
          row_lastSubmissionAt = sql_MAX (s_column (\<lambda>x. Some (createdAt x)) rows)\<rparr>)"

text \<open>
  \<^verbatim>\<open>ORDER BY "totalScore" DESC, "approvedSubmissions" DESC, "averageScore" DESC\<close>: the
  rows are sorted on the three columns, each descending. The order the database gives to
  rows equal on all three is not fixed by the query; here they keep their order.
\<close>

definition orderKey :: "Row \<Rightarrow> int \<times> int \<times> rat" where
  "orderKey r = (- row_totalScore r, - int (row_approvedSubmissions r), - row_averageScore r)"

definition queryOverall :: "int option \<Rightarrow> Database \<Rightarrow> Row list" where
  "queryOverall dateFilter db =
     sort_key orderKey
       (map (groupRow dateFilter db) (filter (\<lambda>u. user_status u = ACTIVE) (users db)))"

record LeaderboardEntry =
  userId :: string
  entry_firstName :: string
  entry_lastName :: string
  entry_email :: string
  entry_avatarUrl :: "string option"
  totalScore :: int
  totalSubmissions :: nat
  approvedSubmissions :: nat
  averageScore :: rat
  rank :: nat
  entry_badges :: nat
  lastSubmissionAt :: "int option"

definition toEntry :: "nat \<times> Row \<Rightarrow> LeaderboardEntry" where
  "toEntry p =
     (case p of
        (index, row) \<Rightarrow>
          \<lparr>userId = user_id (row_user row),
           entry_firstName = firstName (row_user row),
           entry_lastName = lastName (row_user row),
           entry_email = email (row_user row),
           entry_avatarUrl = avatarUrl (row_user row),
           totalScore = row_totalScore row,
           totalSubmissions = row_totalSubmissions row,
           approvedSubmissions = row_approvedSubmissions row,
           averageScore = row_averageScore row,
           rank = index + 1,
           entry_badges = row_badges row,
           lastSubmissionAt = row_lastSubmissionAt row\<rparr>)"

definition calculateOverallLeaderboard :: "int \<Rightarrow> TimeRange option \<Rightarrow> Database \<Rightarrow> LeaderboardEntry list" where
  "calculateOverallLeaderboard now timeRange db =
     (let dateFilter = getDateFilter now timeRange;
          results = queryOverall dateFilter db
      in map toEntry (enumerate 0 results))"

text \<open>
  The order of the leaderboard: \<open>a\<close> may stand before \<open>b\<close> when it has the higher total
  score, or the same total score and more approved submissions, or both the same and an
  average score at least as high.
\<close>

definition ranksBefore :: "LeaderboardEntry \<Rightarrow> LeaderboardEntry \<Rightarrow> bool" where
  "ranksBefore a b =
     (totalScore a > totalScore b
      \<or> (totalScore a = totalScore b
          \<and> (approvedSubmissions a > approvedSubmissions b
              \<or> (approvedSubmissions a = approvedSubmissions b \<and> averageScore a \<ge> averageScore b))))"

text \<open>
  From the specification, for comparison with the query: the scores of the approved
  submissions of one user, whose sum the total score is specified to be.
\<close>

definition specApprovedScores :: "Submission list \<Rightarrow> int list" where
  "specApprovedScores ss = nonNull (map score (filter (\<lambda>s. submission_status s = APPROVED) ss))"

section \<open>Decimal strings round-trip\<close>

lemma digitsValue_snoc:
  "digitsValue r dv acc (cs @ [c]) = digitsValue r dv acc cs * r + dv c"
  by (induction cs arbitrary: acc) simp_all

lemma isDigit_digitChar: "d < 10 \<Longrightarrow> isDigit (digitChar d)"
  by (simp add: isDigit_def digitChar_def)

lemma digitValue_digitChar: "d < 10 \<Longrightarrow> digitValue (digitChar d) = int d"
  by (simp add: digitValue_def digitChar_def)

lemma digitsOf_all_digits: "c \<in> set (digitsOf n) \<Longrightarrow> isDigit c"
proof (induction n rule: digitsOf.induct)
  case (1 n)
  show ?case
  proof (cases "n < 10")
    case True
    with 1(2) show ?thesis
      by (subst (asm) digitsOf.simps) (simp add: isDigit_digitChar)
  next
    case False
    with 1 show ?thesis
      by (subst (asm) digitsOf.simps) (auto simp: isDigit_digitChar)
  qed
qed

lemma digitsOf_value: "digitsValue 10 digitValue 0 (digitsOf n) = int n"
proof (induction n rule: digitsOf.induct)
  case (1 n)
  show ?case
  proof (cases "n < 10")
    case True
    then show ?thesis
      by (subst digitsOf.simps) (simp add: digitValue_digitChar)
  next
    case False
    then have "digitsOf n = digitsOf (n div 10) @ [digitChar (n mod 10)]"
      by (subst digitsOf.simps) simp
    moreover have "int (n div 10) * 10 + int (n mod 10) = int n"
      by (simp add: zdiv_int zmod_int)
    ultimately show ?thesis
      using 1 False by (simp add: digitsValue_snoc digitValue_digitChar)
  qed
qed

lemma digitsOf_nonempty: "digitsOf n \<noteq> []"
  by (subst digitsOf.simps) simp

lemma no_hex_prefix:
  assumes "\<forall>c \<in> set ds. isDigit c"
  shows "(case ds of a # b # _ \<Rightarrow> a = CHR ''0'' \<and> (b = CHR ''x'' \<or> b = CHR ''X'') | _ \<Rightarrow> False) = False"
  using assms by (auto simp: isDigit_def split: list.splits)

lemma parseInt_digits:
  assumes "ds \<noteq> []" and "\<forall>c \<in> set ds. isDigit c"
  shows "parseInt ds = Some (digitsValue 10 digitValue 0 ds)"
proof -
  obtain c r where ds: "ds = c # r" using assms(1) by (cases ds) auto
  have dc: "isDigit c" using assms(2) ds by simp
  have dw: "dropWhile isWhiteSpace ds = ds"
    using dc ds by (auto simp: isDigit_def isWhiteSpace_def)
  have neg: "(case ds of c # _ \<Rightarrow> c = CHR ''-'' | [] \<Rightarrow> False) = False"
    using dc ds by (auto simp: isDigit_def)
  have u: "(case ds of c # r \<Rightarrow> if c = CHR ''-'' \<or> c = CHR ''+'' then r else ds | [] \<Rightarrow> ds) = ds"
    using dc ds by (auto simp: isDigit_def)
  have tw: "takeWhile isDigit ds = ds" using assms(2) by simp
  show ?thesis
    by (simp add: parseInt_def Let_def dw neg u no_hex_prefix[OF assms(2)] tw assms(1))
qed

lemma parseInt_neg_digits:
  assumes "ds \<noteq> []" and "\<forall>c \<in> set ds. isDigit c"
  shows "parseInt (CHR ''-'' # ds) = Some (- digitsValue 10 digitValue 0 ds)"
proof -
  have tw: "takeWhile isDigit ds = ds" using assms(2) by simp
  show ?thesis
    by (simp add: parseInt_def Let_def isWhiteSpace_def no_hex_prefix[OF assms(2)] tw assms(1))
qed

lemma parseInt_toString: "parseInt (toString i) = Some i"
proof (cases "i < 0")
  case True
  then show ?thesis
    by (simp add: toString_def parseInt_neg_digits digitsOf_nonempty digitsOf_all_digits digitsOf_value)
next
  case False
  then show ?thesis
    by (simp add: toString_def parseInt_digits digitsOf_nonempty digitsOf_all_digits digitsOf_value)
qed

lemma toString_nonempty: "toString i \<noteq> []"
  by (simp add: toString_def digitsOf_nonempty)

lemma toString_1: "toString 1 = ''1''"
  by code_simp

lemma toString_0: "toString 0 = ''0''"
  by code_simp

lemma parseInt_0: "parseInt ''0'' = Some 0"
  using parseInt_toString [of 0] by (simp add: toString_0)

section \<open>Facts about the map\<close>

lemma Map_get_Map_set: "Map_get (Map_set k v m) k' = (if k' = k then Some v else Map_get m k')"
  by (induction m) (auto simp: Map_get_def)

lemma Map_get_Map_delete: "Map_get (Map_delete k m) k' = (if k' = k then None else Map_get m k')"
  by (induction m) (auto simp: Map_get_def Map_delete_def)

lemma Map_size_Map_set:
  "Map_size (Map_set k v m) = (if Map_has k m then Map_size m else Map_size m + 1)"
  by (induction m) (auto simp: Map_size_def Map_has_def Map_get_def)

lemma Map_size_Map_delete_le: "Map_size (Map_delete k m) \<le> Map_size m"
  by (simp add: Map_size_def Map_delete_def)

section \<open>The return values of ttl\<close>

text \<open>What \<^verbatim>\<open>ttl\<close> computes, case by case.\<close>

lemma ttl_cases:
  "(ttl now key s = - 1 \<longleftrightarrow>
      Map_get (cache s) key = None \<or> (\<exists>e. Map_get (cache s) key = Some e \<and> expiresAt e = 0))
   \<and> (ttl now key s = - 2 \<longleftrightarrow>
      (\<exists>e. Map_get (cache s) key = Some e \<and> expiresAt e \<noteq> 0 \<and> expiresAt e < now + 1000))
   \<and> (\<forall>e. Map_get (cache s) key = Some e \<and> expiresAt e \<noteq> 0 \<and> now + 1000 \<le> expiresAt e
         \<longrightarrow> ttl now key s = (expiresAt e - now) div 1000 \<and> 0 < ttl now key s)
   \<and> (\<forall>e. Map_get (cache s) key = Some e \<and> expired now e \<longrightarrow> ttl now key s = - 2)"
proof -
  have pos: "0 < (x::int) div 1000 \<longleftrightarrow> 1000 \<le> x" for x
    by (simp add: pos_imp_zdiv_pos_iff)
  show ?thesis
  proof (cases "Map_get (cache s) key")
    case None
    then show ?thesis by (simp add: ttl_def)
  next
    case (Some e)
    show ?thesis
    proof (cases "expiresAt e = 0")
      case True
      with Some show ?thesis by (simp add: ttl_def expired_def)
    next
      case False
      have "0 < (expiresAt e - now) div 1000 \<longleftrightarrow> now + 1000 \<le> expiresAt e"
        using pos [of "expiresAt e - now"] by linarith
      with Some False show ?thesis
        by (auto simp: ttl_def expired_def Let_def)
    qed
  qed
qed

text \<open>
  C5 on the code. For a key that is absent \<^verbatim>\<open>ttl\<close> returns \<open>-1\<close>, where the claim says
  \<open>-2\<close>. For one and the same expired key it returns \<open>-2\<close> as long as the entry is in
  the map and \<open>-1\<close> once \<^verbatim>\<open>get\<close> has purged it, so an absent and an expired key do not
  yield the same result, and the answer depends on the purge. For an entry with half a
  second to live, which \<^verbatim>\<open>get\<close> still serves, it returns \<open>-2\<close>, where the claim says the
  remaining seconds.
\<close>

theorem ttl_differs_from_reads:
  "ttl 1000 ''k'' newMemoryCacheService = - 1
   \<and> ttl 7000 ''k'' \<lparr>cache = [(''k'', \<lparr>entryValue = ''v'', expiresAt = 6500\<rparr>)], maxSize = 10000\<rparr> = - 2
   \<and> fst (get 7000 ''k'' \<lparr>cache = [(''k'', \<lparr>entryValue = ''v'', expiresAt = 6500\<rparr>)], maxSize = 10000\<rparr>)
       = None
   \<and> ttl 7000 ''k''
        (snd (get 7000 ''k'' \<lparr>cache = [(''k'', \<lparr>entryValue = ''v'', expiresAt = 6500\<rparr>)], maxSize = 10000\<rparr>))
       = - 1
   \<and> fst (get 1500 ''k'' \<lparr>cache = [(''k'', \<lparr>entryValue = ''v'', expiresAt = 2000\<rparr>)], maxSize = 10000\<rparr>)
       = Some ''v''
   \<and> ttl 1500 ''k'' \<lparr>cache = [(''k'', \<lparr>entryValue = ''v'', expiresAt = 2000\<rparr>)], maxSize = 10000\<rparr> = - 2"
  by (simp add: ttl_def get_def newMemoryCacheService_def Map_get_def Map_delete_def expired_def)

section \<open>Counters\<close>

lemma currentValue_expired: "expired now e \<Longrightarrow> currentValue now (Some e) = 0"
  by (auto simp: currentValue_def expired_def)

lemma currentValue_zero_string: "entryValue e = ''0'' \<Longrightarrow> currentValue now (Some e) = 0"
  by (simp add: currentValue_def parseInt_0 orZero_def)

lemma get_Some_iff:
  "fst (get now key s) = Some v \<longleftrightarrow>
     (\<exists>e. Map_get (cache s) key = Some e \<and> \<not> expired now e \<and> entryValue e = v)"
  by (auto simp: get_def split: option.splits)

lemma get_None_iff:
  "fst (get now key s) = None \<longleftrightarrow>
     (Map_get (cache s) key = None \<or> (\<exists>e. Map_get (cache s) key = Some e \<and> expired now e))"
  by (auto simp: get_def split: option.splits)

lemma incr_result:
  "incr now key s =
     (currentValue now (Map_get (cache s) key) + 1,
      s\<lparr>cache := Map_set key \<lparr>entryValue = toString (currentValue now (Map_get (cache s) key) + 1),
                              expiresAt = keptExpiresAt (Map_get (cache s) key)\<rparr> (cache s)\<rparr>)"
  by (simp add: incr_def Let_def)

lemma decr_result:
  "decr now key s =
     (max 0 (currentValue now (Map_get (cache s) key) - 1),
      s\<lparr>cache := Map_set key \<lparr>entryValue = toString (max 0 (currentValue now (Map_get (cache s) key) - 1)),
                              expiresAt = keptExpiresAt (Map_get (cache s) key)\<rparr> (cache s)\<rparr>)"
  by (simp add: decr_def Let_def)

text \<open>
  C9. \<^verbatim>\<open>incr\<close> on an absent or expired key returns 1 and stores the counter \<open>1\<close> with the
  expiry the entry had (none for an absent key); \<^verbatim>\<open>decr\<close> on an absent key, an expired
  key or a key whose value is \<open>0\<close> returns 0 and keeps the expiry in the same way. The
  value \<^verbatim>\<open>decr\<close> returns is never negative, and \<^verbatim>\<open>incr\<close> of a counter that is not negative
  returns a positive value. When the counter that is read is a safe integer, the counter
  \<^verbatim>\<open>decr\<close> stores is the safe integer it returns, so the stored counter is not negative
  either.
\<close>

theorem counter_semantics:
  "(Map_get (cache s) key = None \<longrightarrow>
      fst (incr now key s) = 1
      \<and> Map_get (cache (snd (incr now key s))) key = Some \<lparr>entryValue = ''1'', expiresAt = 0\<rparr>
      \<and> fst (decr now key s) = 0
      \<and> Map_get (cache (snd (decr now key s))) key = Some \<lparr>entryValue = ''0'', expiresAt = 0\<rparr>)
   \<and> (\<forall>e. Map_get (cache s) key = Some e \<and> expired now e \<longrightarrow>
      fst (incr now key s) = 1
      \<and> Map_get (cache (snd (incr now key s))) key = Some \<lparr>entryValue = ''1'', expiresAt = expiresAt e\<rparr>
      \<and> fst (decr now key s) = 0
      \<and> Map_get (cache (snd (decr now key s))) key = Some \<lparr>entryValue = ''0'', expiresAt = expiresAt e\<rparr>)
   \<and> (\<forall>e. Map_get (cache s) key = Some e \<and> entryValue e = ''0'' \<longrightarrow>
      fst (decr now key s) = 0
      \<and> Map_get (cache (snd (decr now key s))) key = Some \<lparr>entryValue = ''0'', expiresAt = expiresAt e\<rparr>)
   \<and> 0 \<le> fst (decr now key s)
   \<and> (safeInteger (currentValue now (Map_get (cache s) key)) \<longrightarrow>
        safeInteger (fst (decr now key s))
        \<and> (\<exists>e. Map_get (cache (snd (decr now key s))) key = Some e
               \<and> parseInt (entryValue e) = Some (fst (decr now key s))))
   \<and> (0 \<le> currentValue now (Map_get (cache s) key) \<longrightarrow> 0 < fst (incr now key s))"
proof (intro conjI allI impI)
  assume a: "Map_get (cache s) key = None"
  show "fst (incr now key s) = 1"
    using a by (simp add: incr_result currentValue_def)
  show "Map_get (cache (snd (incr now key s))) key = Some \<lparr>entryValue = ''1'', expiresAt = 0\<rparr>"
    using a by (simp add: incr_result currentValue_def keptExpiresAt_def Map_get_Map_set toString_1)
  show "fst (decr now key s) = 0"
    using a by (simp add: decr_result currentValue_def)
  show "Map_get (cache (snd (decr now key s))) key = Some \<lparr>entryValue = ''0'', expiresAt = 0\<rparr>"
    using a by (simp add: decr_result currentValue_def keptExpiresAt_def Map_get_Map_set toString_0)
next
  fix e assume "Map_get (cache s) key = Some e \<and> expired now e"
  then have a: "Map_get (cache s) key = Some e" and c: "currentValue now (Map_get (cache s) key) = 0"
    using currentValue_expired by auto
  show "fst (incr now key s) = 1"
    using c by (simp add: incr_result)
  show "Map_get (cache (snd (incr now key s))) key = Some \<lparr>entryValue = ''1'', expiresAt = expiresAt e\<rparr>"
    unfolding incr_result c using a by (simp add: keptExpiresAt_def Map_get_Map_set toString_1)
  show "fst (decr now key s) = 0"
    using c by (simp add: decr_result)
  show "Map_get (cache (snd (decr now key s))) key = Some \<lparr>entryValue = ''0'', expiresAt = expiresAt e\<rparr>"
    unfolding decr_result c using a by (simp add: keptExpiresAt_def Map_get_Map_set toString_0)
next
  fix e assume "Map_get (cache s) key = Some e \<and> entryValue e = ''0''"
  then have a: "Map_get (cache s) key = Some e" and c: "currentValue now (Map_get (cache s) key) = 0"
    using currentValue_zero_string by auto
  show "fst (decr now key s) = 0"
    using c by (simp add: decr_result)
  show "Map_get (cache (snd (decr now key s))) key = Some \<lparr>entryValue = ''0'', expiresAt = expiresAt e\<rparr>"
    unfolding decr_result c using a by (simp add: keptExpiresAt_def Map_get_Map_set toString_0)
next
  show "0 \<le> fst (decr now key s)"
    by (simp add: decr_result)
next
  assume b: "safeInteger (currentValue now (Map_get (cache s) key))"
  then show "safeInteger (fst (decr now key s))"
    by (auto simp: decr_result safeInteger_def)
  show "\<exists>e. Map_get (cache (snd (decr now key s))) key = Some e
          \<and> parseInt (entryValue e) = Some (fst (decr now key s))"
    by (simp add: decr_result Map_get_Map_set parseInt_toString)
next
  assume "0 \<le> currentValue now (Map_get (cache s) key)"
  then show "0 < fst (incr now key s)"
    by (simp add: incr_result)
qed

theorem counter_semantics_witness:
  "fst (incr 5000 ''n'' newMemoryCacheService) = 1
   \<and> fst (incr 5000 ''n'' \<lparr>cache = [(''n'', \<lparr>entryValue = ''7'', expiresAt = 4000\<rparr>)], maxSize = 10000\<rparr>) = 1
   \<and> Map_get (cache (snd (incr 5000 ''n'' \<lparr>cache = [(''n'', \<lparr>entryValue = ''7'', expiresAt = 4000\<rparr>)], maxSize = 10000\<rparr>))) ''n''
       = Some \<lparr>entryValue = ''1'', expiresAt = 4000\<rparr>
   \<and> fst (decr 5000 ''n'' \<lparr>cache = [(''n'', \<lparr>entryValue = ''0'', expiresAt = 0\<rparr>)], maxSize = 10000\<rparr>) = 0
   \<and> safeInteger (fst (decr 5000 ''n'' \<lparr>cache = [(''n'', \<lparr>entryValue = ''0'', expiresAt = 0\<rparr>)], maxSize = 10000\<rparr>))
   \<and> (\<exists>e. Map_get (cache (snd (decr 5000 ''n''
                \<lparr>cache = [(''n'', \<lparr>entryValue = ''0'', expiresAt = 0\<rparr>)], maxSize = 10000\<rparr>))) ''n'' = Some e
          \<and> parseInt (entryValue e) = Some 0)
   \<and> 0 < fst (incr 5000 ''n'' \<lparr>cache = [(''n'', \<lparr>entryValue = ''0'', expiresAt = 0\<rparr>)], maxSize = 10000\<rparr>)"
proof -
  let ?s0 = "\<lparr>cache = [(''n'', \<lparr>entryValue = ''0'', expiresAt = 0\<rparr>)], maxSize = 10000\<rparr>"
  let ?s7 = "\<lparr>cache = [(''n'', \<lparr>entryValue = ''7'', expiresAt = 4000\<rparr>)], maxSize = 10000\<rparr>"
  have w1: "fst (incr 5000 ''n'' newMemoryCacheService) = 1"
    using counter_semantics [of newMemoryCacheService "''n''" 5000, THEN conjunct1]
    by (simp add: newMemoryCacheService_def Map_get_def)
  have w2: "fst (incr 5000 ''n'' ?s7) = 1
      \<and> Map_get (cache (snd (incr 5000 ''n'' ?s7))) ''n'' = Some \<lparr>entryValue = ''1'', expiresAt = 4000\<rparr>"
    using counter_semantics [of ?s7 "''n''" 5000, THEN conjunct2, THEN conjunct1, rule_format,
        of "\<lparr>entryValue = ''7'', expiresAt = 4000\<rparr>"]
    by (simp add: Map_get_def expired_def)
  have w3: "fst (decr 5000 ''n'' ?s0) = 0"
    using counter_semantics [of ?s0 "''n''" 5000, THEN conjunct2, THEN conjunct2, THEN conjunct1,
        rule_format, of "\<lparr>entryValue = ''0'', expiresAt = 0\<rparr>"]
    by (simp add: Map_get_def)
  have c: "currentValue 5000 (Map_get (cache ?s0) ''n'') = 0"
    by (simp add: Map_get_def currentValue_zero_string)
  have w4: "safeInteger (fst (decr 5000 ''n'' ?s0))
      \<and> (\<exists>e. Map_get (cache (snd (decr 5000 ''n'' ?s0))) ''n'' = Some e
             \<and> parseInt (entryValue e) = Some (fst (decr 5000 ''n'' ?s0)))"
    using counter_semantics [of ?s0 "''n''" 5000, THEN conjunct2, THEN conjunct2, THEN conjunct2,
        THEN conjunct2, THEN conjunct1] c
    by (simp add: safeInteger_def)
  have w5: "0 < fst (incr 5000 ''n'' ?s0)"
    using counter_semantics [of ?s0 "''n''" 5000, THEN conjunct2, THEN conjunct2, THEN conjunct2,
        THEN conjunct2, THEN conjunct2] c
    by simp
  show ?thesis
    using w1 w2 w3 w4 w5 by (simp only: simp_thms)
qed

section \<open>The token blacklist\<close>

text \<open>
  C8. When the injected cache throws during the lookup, \<^verbatim>\<open>isTokenBlacklisted\<close> returns
  false and throws nothing. On the memory cache, whose lookups succeed, it returns true
  exactly when the revocation entry of the token is present and not expired. A
  revocation entry holds the id of the user, as \<^verbatim>\<open>blacklistToken\<close> writes it; the id is a
  primary key and not the empty string.
\<close>

theorem isTokenBlacklisted_fail_open:
  "(\<forall>error. cacheGet (''blacklist:'' @ token) st = Inl error \<longrightarrow>
       isTokenBlacklisted cacheGet token st = (False, st))
   \<and> ((\<forall>e. Map_get (cache s) (''blacklist:'' @ token) = Some e \<longrightarrow> entryValue e \<noteq> []) \<longrightarrow>
       (fst (isTokenBlacklisted (memoryGet now) token s) \<longleftrightarrow>
          (\<exists>e. Map_get (cache s) (''blacklist:'' @ token) = Some e \<and> \<not> expired now e)))
   \<and> Map_get (cache (blacklistToken t0 token uid expiresIn s)) (''blacklist:'' @ token)
       = Some \<lparr>entryValue = uid, expiresAt = t0 + max expiresIn 3600 * 1000\<rparr>"
proof -
  define k where "k = ''blacklist:'' @ token"
  have "fst (isTokenBlacklisted (memoryGet now) token s) \<longleftrightarrow>
          (\<exists>v. fst (get now k s) = Some v \<and> v \<noteq> [])"
    by (auto simp: isTokenBlacklisted_def memoryGet_def k_def split: option.splits prod.splits)
  also have "\<dots> \<longleftrightarrow> (\<exists>e. Map_get (cache s) k = Some e \<and> \<not> expired now e \<and> entryValue e \<noteq> [])"
    by (auto simp: get_Some_iff)
  finally have iff: "fst (isTokenBlacklisted (memoryGet now) token s) \<longleftrightarrow>
      (\<exists>e. Map_get (cache s) k = Some e \<and> \<not> expired now e \<and> entryValue e \<noteq> [])" .
  have written: "Map_get (cache (blacklistToken t0 token uid expiresIn s)) k
       = Some \<lparr>entryValue = uid, expiresAt = t0 + max expiresIn 3600 * 1000\<rparr>"
  proof -
    have t: "max expiresIn 3600 \<noteq> 0" by simp
    show ?thesis
      unfolding blacklistToken_def Let_def k_def [symmetric]
      using t by (simp add: setex_def set_entry_def Let_def Map_get_Map_set)
  qed
  show ?thesis
    using iff written unfolding k_def
    by (auto simp: isTokenBlacklisted_def)
qed

theorem isTokenBlacklisted_fail_open_witness:
  "isTokenBlacklisted (\<lambda>key st. Inl (Error ''backend down'')) ''t'' newMemoryCacheService
     = (False, newMemoryCacheService)
   \<and> fst (isTokenBlacklisted (memoryGet 1000) ''t'' (blacklistToken 0 ''t'' ''u1'' 60 newMemoryCacheService))
   \<and> \<not> fst (isTokenBlacklisted (memoryGet 3600001) ''t'' (blacklistToken 0 ''t'' ''u1'' 60 newMemoryCacheService))"
proof -
  let ?s = "blacklistToken 0 ''t'' ''u1'' 60 newMemoryCacheService"
  have m: "Map_get (cache ?s) (''blacklist:'' @ ''t'')
             = Some \<lparr>entryValue = ''u1'', expiresAt = 3600000\<rparr>"
    using isTokenBlacklisted_fail_open [of "\<lambda>key st. Inl (Error ''backend down'')" "''t''"
        newMemoryCacheService newMemoryCacheService 0 0 "''u1''" 60]
    by simp
  have open_: "isTokenBlacklisted (\<lambda>key st. Inl (Error ''backend down'')) ''t'' newMemoryCacheService
     = (False, newMemoryCacheService)"
    using isTokenBlacklisted_fail_open [of "\<lambda>key st. Inl (Error ''backend down'')" "''t''" newMemoryCacheService]
    by simp
  have live: "fst (isTokenBlacklisted (memoryGet 1000) ''t'' ?s)"
    using isTokenBlacklisted_fail_open [of "\<lambda>key st. Inl (Error ''backend down'')" "''t''"
        newMemoryCacheService ?s 1000 0 "''u1''" 60] m
    by (simp add: expired_def)
  have gone: "\<not> fst (isTokenBlacklisted (memoryGet 3600001) ''t'' ?s)"
    using isTokenBlacklisted_fail_open [of "\<lambda>key st. Inl (Error ''backend down'')" "''t''"
        newMemoryCacheService ?s 3600001 0 "''u1''" 60] m
    by (simp add: expired_def)
  show ?thesis
    using open_ live gone by simp
qed

section \<open>Capacity of the store\<close>

lemma Map_has_Map_set: "Map_has k' (Map_set k v m) \<longleftrightarrow> k' = k \<or> Map_has k' m"
  by (simp add: Map_has_def Map_get_Map_set)

lemma Map_size_Map_delete_first:
  "Map_size (Map_delete k ((k, v) # m)) \<le> Map_size m"
  by (simp add: Map_size_def Map_delete_def)

text \<open>
  \<^verbatim>\<open>set\<close> keeps the store within \<open>maxSize\<close> as long as the oldest key is not the empty
  string, which \<^verbatim>\<open>if (firstKey)\<close> takes for no key at all.
\<close>

lemma set_entry_within_capacity:
  assumes "Map_size (cache s) \<le> maxSize s" and "0 < maxSize s"
    and "cache s = [] \<or> fst (hd (cache s)) \<noteq> []"
  shows "Map_size (cache (set_entry now key v t s)) \<le> maxSize s"
proof (cases "Map_size (cache s) \<ge> maxSize s \<and> \<not> Map_has key (cache s)")
  case False
  then show ?thesis
    using assms(1) by (auto simp: set_entry_def Let_def Map_size_Map_set)
next
  case True
  then obtain firstKey e m where c: "cache s = (firstKey, e) # m"
    using assms(2) by (cases "cache s") (auto simp: Map_size_def)
  have nk: "firstKey \<noteq> []" using assms(3) c by simp
  have "\<not> Map_has key (Map_delete firstKey (cache s))"
    using True by (simp add: Map_has_def Map_get_Map_delete)
  moreover have "Map_size (Map_delete firstKey (cache s)) + 1 \<le> maxSize s"
    using Map_size_Map_delete_first [of firstKey e m] assms(1) c by (simp add: Map_size_def)
  ultimately show ?thesis
    using True c nk by (simp add: set_entry_def Let_def Map_size_Map_set)
qed

text \<open>The example of the specification: with room for two entries, \<open>a\<close>, \<open>b\<close>, \<open>c\<close> evict \<open>a\<close>.\<close>

lemma fifo_eviction_example:
  "map fst (cache (runOps 0 [OpSet ''a'' ''1'' None, OpSet ''b'' ''2'' None, OpSet ''c'' ''3'' None]
                     \<lparr>cache = [], maxSize = 2\<rparr>)) = [''b'', ''c'']"
  by (simp add: set_entry_def Map_size_def Map_has_def Map_get_def Map_delete_def)

text \<open>\<^verbatim>\<open>incr\<close> and \<^verbatim>\<open>decr\<close> write to the map without the capacity check of \<^verbatim>\<open>set\<close>.\<close>

lemma incr_new_key_grows:
  "\<not> Map_has key (cache s) \<Longrightarrow> Map_size (cache (snd (incr now key s))) = Map_size (cache s) + 1"
  by (simp add: incr_def Let_def Map_size_Map_set)

lemma decr_new_key_grows:
  "\<not> Map_has key (cache s) \<Longrightarrow> Map_size (cache (snd (decr now key s))) = Map_size (cache s) + 1"
  by (simp add: decr_def Let_def Map_size_Map_set)

lemma Map_has_iff: "Map_has k m \<longleftrightarrow> k \<in> set (map fst m)"
  by (induction m) (auto simp: Map_has_def Map_get_def)

lemma keys_Map_set_new: "\<not> Map_has k m \<Longrightarrow> map fst (Map_set k v m) = map fst m @ [k]"
  by (induction m) (auto simp: Map_has_def Map_get_def)

lemma set_new_keys:
  assumes "distinct (map fst (cache s) @ ks)" and "length (cache s) + length ks \<le> maxSize s"
  shows "map fst (cache (runOps now (map (\<lambda>k. OpSet k v None) ks) s)) = map fst (cache s) @ ks
         \<and> maxSize (runOps now (map (\<lambda>k. OpSet k v None) ks) s) = maxSize s"
  using assms
proof (induction ks arbitrary: s)
  case Nil
  then show ?case by simp
next
  case (Cons k ks)
  let ?s = "set_entry now k v None s"
  have new: "\<not> Map_has k (cache s)" using Cons.prems(1) by (auto simp: Map_has_iff)
  have room: "\<not> Map_size (cache s) \<ge> maxSize s" using Cons.prems(2) by (simp add: Map_size_def)
  have keys: "map fst (cache ?s) = map fst (cache s) @ [k]"
    using new room by (simp add: set_entry_def Let_def keys_Map_set_new)
  have m: "maxSize ?s = maxSize s" by (simp add: set_entry_def Let_def)
  have len: "length (cache ?s) = Suc (length (cache s))"
    using arg_cong [OF keys, of length] by simp
  have "map fst (cache (runOps now (map (\<lambda>k. OpSet k v None) ks) ?s)) = map fst (cache ?s) @ ks
        \<and> maxSize (runOps now (map (\<lambda>k. OpSet k v None) ks) ?s) = maxSize ?s"
    using Cons.prems by (intro Cons.IH) (simp_all add: keys m len)
  then show ?case by (simp add: keys m)
qed

text \<open>
  C6 on the code. With \<open>maxSize = 2\<close>, after \<^verbatim>\<open>set\<close> of \<open>a\<close> and \<open>b\<close> the \<^verbatim>\<open>incr\<close> of the
  new key \<open>c\<close> leaves three entries in the store: the capacity bound of the claim does
  not hold after \<^verbatim>\<open>incr\<close>. The same happens when the oldest key is the empty string:
  \<^verbatim>\<open>set\<close> of a new key then evicts nothing. With the \<open>maxSize\<close> of the constructor,
  10000 keys \<open>k\<close>, \<open>kk\<close>, \<open>kkk\<close>, ... fill the store and the \<^verbatim>\<open>incr\<close> of \<open>c\<close> makes it
  hold 10001 entries.
\<close>

theorem capacity_exceeded_by_incr:
  "map fst (cache (runOps 0 [OpSet ''a'' ''1'' None, OpSet ''b'' ''2'' None, OpIncr ''c'']
                     \<lparr>cache = [], maxSize = 2\<rparr>)) = [''a'', ''b'', ''c'']
   \<and> Map_size (cache (runOps 0 [OpSet [] ''1'' None, OpSet ''b'' ''2'' None, OpSet ''c'' ''3'' None]
                     \<lparr>cache = [], maxSize = 2\<rparr>)) = 3
   \<and> Map_size (cache (runOps 0
          (map (\<lambda>k. OpSet k ''v'' None) (map (\<lambda>i. replicate (Suc i) CHR ''k'') [0..<10000]) @ [OpIncr ''c''])
          newMemoryCacheService)) = 10001"
proof -
  define ks where "ks = map (\<lambda>i. replicate (Suc i) CHR ''k'') [0..<10000]"
  define s where "s = runOps 0 (map (\<lambda>k. OpSet k ''v'' None) ks) newMemoryCacheService"
  have run_append: "runOps now (xs @ ys) st = runOps now ys (runOps now xs st)" for now xs ys st
    by (induction xs arbitrary: st) simp_all
  have inj: "inj_on (\<lambda>i. replicate (Suc i) CHR ''k'') (set [0..<10000])"
    by (rule inj_onI) (metis length_replicate nat.inject)
  have d: "distinct ks" unfolding ks_def using inj by (simp only: distinct_map distinct_upt simp_thms)
  have len: "length ks = 10000" by (simp add: ks_def)
  have keys: "map fst (cache s) = ks"
    unfolding s_def
    using set_new_keys [of newMemoryCacheService ks 0 "''v''"] d len
    by (simp add: newMemoryCacheService_def)
  have "''c'' \<notin> set ks"
  proof
    assume "''c'' \<in> set ks"
    then obtain i where "''c'' = replicate (Suc i) CHR ''k''" by (auto simp: ks_def)
    then show False by simp
  qed
  then have new: "\<not> Map_has ''c'' (cache s)" by (simp only: Map_has_iff keys not_False_eq_True)
  have "Map_size (cache s) = 10000"
    using arg_cong [OF keys, of length] len by (simp add: Map_size_def)
  then have "Map_size (cache (snd (incr 0 ''c'' s))) = 10001"
    using incr_new_key_grows [OF new, of 0] by simp
  then have big: "Map_size (cache (runOps 0
          (map (\<lambda>k. OpSet k ''v'' None) (map (\<lambda>i. replicate (Suc i) CHR ''k'') [0..<10000]) @ [OpIncr ''c''])
          newMemoryCacheService)) = 10001"
    unfolding run_append s_def ks_def by simp
  have small:
    "map fst (cache (runOps 0 [OpSet ''a'' ''1'' None, OpSet ''b'' ''2'' None, OpIncr ''c'']
                     \<lparr>cache = [], maxSize = 2\<rparr>)) = [''a'', ''b'', ''c'']"
    "Map_size (cache (runOps 0 [OpSet [] ''1'' None, OpSet ''b'' ''2'' None, OpSet ''c'' ''3'' None]
                     \<lparr>cache = [], maxSize = 2\<rparr>)) = 3"
    by (simp_all add: set_entry_def incr_def Map_size_def Map_has_def Map_get_def Map_delete_def
        keptExpiresAt_def currentValue_def)
  show ?thesis
    using small big by (intro conjI)
qed

section \<open>The facade\<close>

lemma getOrSet_hit:
  "fst (CacheService_get J now key options s) \<noteq> JNull \<Longrightarrow>
   getOrSet J now later key factory options s =
     (Inr (fst (CacheService_get J now key options s)), 0, snd (CacheService_get J now key options s))"
  by (cases "CacheService_get J now key options s") (simp add: getOrSet_def)

lemma getOrSet_miss_value:
  "fst (CacheService_get J now key options s) = JNull \<Longrightarrow> factory 0 = Inr v \<Longrightarrow>
   getOrSet J now later key factory options s =
     (Inr v, 1, snd (CacheService_set J later key v options (snd (CacheService_get J now key options s))))"
  by (cases "CacheService_get J now key options s") (simp add: getOrSet_def)

lemma getOrSet_miss_error:
  "fst (CacheService_get J now key options s) = JNull \<Longrightarrow> factory 0 = Inl e \<Longrightarrow>
   getOrSet J now later key factory options s =
     (factory 1, 2, snd (CacheService_get J now key options s))"
  by (cases "CacheService_get J now key options s") (simp add: getOrSet_def)

text \<open>
  C7 on the code. The key is missing and the first invocation of the factory throws:
  the \<^verbatim>\<open>catch\<close> of \<^verbatim>\<open>getOrSet\<close> invokes the factory a second time and the caller gets
  the outcome of that second invocation, a value or another error, never the first
  error.
\<close>

theorem getOrSet_factory_error_retried:
  "getOrSet literalJSON 0 0 ''k'' (\<lambda>i. if i = 0 then Inl (Error ''first'') else Inr (JNum 7))
       noOptions newMemoryCacheService
     = (Inr (JNum 7), 2, newMemoryCacheService)
   \<and> getOrSet literalJSON 0 0 ''k'' (\<lambda>i. if i = 0 then Inl (Error ''first'') else Inl (Error ''second''))
       noOptions newMemoryCacheService
     = (Inl (Error ''second''), 2, newMemoryCacheService)"
  by (simp add: getOrSet_def CacheService_get_def get_def buildKey_def noOptions_def
      newMemoryCacheService_def Map_get_def)

section \<open>The aggregates of the leaderboard\<close>

text \<open>
  C4 on the code. One active user has an approved submission with score 10 and a
  rejected submission with score 5. The approved scores sum to 10; the entry of the
  leaderboard has \<open>totalScore = 15\<close>, because \<^verbatim>\<open>SUM(s.score)\<close> runs over all joined
  submissions. The three other aggregates are as the claim says.
\<close>

theorem totalScore_counts_rejected:
  "map (\<lambda>e. (userId e, totalScore e, totalSubmissions e, approvedSubmissions e, averageScore e))
     (calculateOverallLeaderboard 0 None
        \<lparr>users = [\<lparr>user_id = ''u'', firstName = ''A'', lastName = ''B'', email = ''a@b'',
                    avatarUrl = None, user_status = ACTIVE\<rparr>],
         submissions =
           [\<lparr>submission_id = ''s1'', submission_userId = ''u'', score = Some 10,
             submission_status = APPROVED, createdAt = 0\<rparr>,
            \<lparr>submission_id = ''s2'', submission_userId = ''u'', score = Some 5,
             submission_status = REJECTED, createdAt = 0\<rparr>],
         badges = []\<rparr>)
     = [(''u'', 15, 2, 1, 10)]
   \<and> sum_list (specApprovedScores
        [\<lparr>submission_id = ''s1'', submission_userId = ''u'', score = Some 10,
          submission_status = APPROVED, createdAt = 0\<rparr>,
         \<lparr>submission_id = ''s2'', submission_userId = ''u'', score = Some 5,
          submission_status = REJECTED, createdAt = 0\<rparr>]) = 10"
  by (simp add: calculateOverallLeaderboard_def queryOverall_def groupRow_def joinedRows_def
      leftJoin_def getDateFilter_def s_column_def whenApproved_def sql_SUM_def sql_COUNT_def
      sql_AVG_def sql_MAX_def sql_COALESCE_def nonNull_def toEntry_def enumerate_eq_zip
      specApprovedScores_def)

section \<open>Hits and misses of the facade\<close>

lemma effectiveTTL_nonzero: "effectiveTTL options \<noteq> 0"
  by (simp add: effectiveTTL_def defaultTTL_def split: option.splits)

lemma Map_get_setex:
  "t \<noteq> 0 \<Longrightarrow> Map_get (cache (setex now key t v s)) key = Some \<lparr>entryValue = v, expiresAt = now + t * 1000\<rparr>"
  by (simp add: setex_def set_entry_def Let_def Map_get_Map_set)

lemma Map_get_CacheService_set:
  "Map_get (cache (snd (CacheService_set J later key v options s))) (buildKey key (opt_prefix options))
     = Some \<lparr>entryValue = (if opt_serialize options \<noteq> Some False then JSON_stringify J v else asString v),
             expiresAt = later + effectiveTTL options * 1000\<rparr>"
  by (simp add: CacheService_set_def Let_def Map_get_setex effectiveTTL_nonzero)

lemma get_live:
  "Map_get (cache s) key = Some e \<Longrightarrow> \<not> expired now e \<Longrightarrow> get now key s = (Some (entryValue e), s)"
  by (simp add: get_def)

lemma CacheService_get_live:
  assumes "Map_get (cache s) (buildKey key (opt_prefix options)) = Some e" and "\<not> expired now e"
  shows "CacheService_get J now key options s =
     ((if entryValue e = [] then JNull
       else if opt_serialize options \<noteq> Some False
       then (case JSON_parse J (entryValue e) of Inr x \<Rightarrow> x | Inl error \<Rightarrow> JNull)
       else JStr (entryValue e)), s)"
  using get_live [OF assms]
  by (simp add: CacheService_get_def Let_def split: sum.splits)

lemma not_expired_until: "now \<le> expiresAt e \<Longrightarrow> \<not> expired now e"
  by (simp add: expired_def)

text \<open>
  C10. A key whose stored string is empty, or deserializes to \<^verbatim>\<open>null\<close>, is populated in
  the store (the store's \<^verbatim>\<open>get\<close> returns the string), yet the facade's \<^verbatim>\<open>get\<close> returns
  \<^verbatim>\<open>null\<close> and \<^verbatim>\<open>getOrSet\<close> invokes the factory. This is the state the facade's own
  \<^verbatim>\<open>set\<close> of the value \<^verbatim>\<open>null\<close> leaves, for as long as the entry lives, when the text of
  \<^verbatim>\<open>null\<close> parses back to \<^verbatim>\<open>null\<close>.
\<close>

theorem null_values_never_cached:
  "(\<forall>e. Map_get (cache s) (buildKey key (opt_prefix options)) = Some e \<and> \<not> expired now e
         \<and> (entryValue e = []
             \<or> (opt_serialize options \<noteq> Some False \<and> JSON_parse J (entryValue e) = Inr JNull))
      \<longrightarrow> fst (get now (buildKey key (opt_prefix options)) s) = Some (entryValue e)
          \<and> fst (CacheService_get J now key options s) = JNull
          \<and> 0 < fst (snd (getOrSet J now later key factory options s)))
   \<and> (opt_serialize options \<noteq> Some False \<and> JSON_parse J (JSON_stringify J JNull) = Inr JNull
       \<and> now \<le> t + effectiveTTL options * 1000
      \<longrightarrow> fst (get now (buildKey key (opt_prefix options)) (snd (CacheService_set J t key JNull options s)))
            = Some (JSON_stringify J JNull)
          \<and> fst (CacheService_get J now key options (snd (CacheService_set J t key JNull options s))) = JNull
          \<and> 0 < fst (snd (getOrSet J now later key factory options
                             (snd (CacheService_set J t key JNull options s)))))"
proof -
  have calls: "0 < fst (snd (getOrSet J now later key factory options st))"
    if "fst (CacheService_get J now key options st) = JNull" for st
  proof (cases "factory 0")
    case (Inl e)
    then show ?thesis using getOrSet_miss_error [of J now key options st factory e later] that by simp
  next
    case (Inr v)
    then show ?thesis using getOrSet_miss_value [of J now key options st factory v later] that by simp
  qed
  have part1:
    "fst (get now (buildKey key (opt_prefix options)) st) = Some (entryValue e)
     \<and> fst (CacheService_get J now key options st) = JNull
     \<and> 0 < fst (snd (getOrSet J now later key factory options st))"
    if "Map_get (cache st) (buildKey key (opt_prefix options)) = Some e" and "\<not> expired now e"
      and "entryValue e = []
           \<or> (opt_serialize options \<noteq> Some False \<and> JSON_parse J (entryValue e) = Inr JNull)"
    for st e
  proof -
    have g: "fst (CacheService_get J now key options st) = JNull"
      using that(3) by (auto simp: CacheService_get_live [OF that(1,2)])
    show ?thesis
      using g calls [OF g] by (simp add: get_live [OF that(1,2)])
  qed
  have part2:
    "fst (get now (buildKey key (opt_prefix options)) (snd (CacheService_set J t key JNull options s)))
            = Some (JSON_stringify J JNull)
     \<and> fst (CacheService_get J now key options (snd (CacheService_set J t key JNull options s))) = JNull
     \<and> 0 < fst (snd (getOrSet J now later key factory options
                             (snd (CacheService_set J t key JNull options s))))"
    if a: "opt_serialize options \<noteq> Some False" "JSON_parse J (JSON_stringify J JNull) = Inr JNull"
      "now \<le> t + effectiveTTL options * 1000"
  proof -
    let ?e = "\<lparr>entryValue = JSON_stringify J JNull, expiresAt = t + effectiveTTL options * 1000\<rparr>"
    have m: "Map_get (cache (snd (CacheService_set J t key JNull options s)))
               (buildKey key (opt_prefix options)) = Some ?e"
      using a(1) by (simp add: Map_get_CacheService_set)
    have l: "\<not> expired now ?e" using a(3) by (simp add: expired_def)
    show ?thesis
      using part1 [OF m l] a(1,2) by simp
  qed
  show ?thesis
    using part1 part2 by blast
qed

lemma literalParse_null: "literalParse ''null'' = Inr JNull"
  by (simp add: literalParse_def)

theorem null_values_never_cached_witness:
  "fst (get 1000 ''k'' \<lparr>cache = [(''k'', \<lparr>entryValue = ''null'', expiresAt = 0\<rparr>)], maxSize = 10000\<rparr>)
     = Some ''null''
   \<and> fst (CacheService_get literalJSON 1000 ''k'' noOptions
            \<lparr>cache = [(''k'', \<lparr>entryValue = ''null'', expiresAt = 0\<rparr>)], maxSize = 10000\<rparr>) = JNull
   \<and> 0 < fst (snd (getOrSet literalJSON 1000 1000 ''k'' (\<lambda>i. Inr JNull) noOptions
            \<lparr>cache = [(''k'', \<lparr>entryValue = ''null'', expiresAt = 0\<rparr>)], maxSize = 10000\<rparr>))
   \<and> 0 < fst (snd (getOrSet literalJSON 1000 1000 ''k'' (\<lambda>i. Inr JNull) noOptions
            (snd (CacheService_set literalJSON 0 ''k'' JNull noOptions newMemoryCacheService))))"
  using null_values_never_cached [of
      "\<lparr>cache = [(''k'', \<lparr>entryValue = ''null'', expiresAt = 0\<rparr>)], maxSize = 10000\<rparr>"
      "''k''" noOptions 1000 literalJSON 1000 "\<lambda>i. Inr JNull" 0]
    null_values_never_cached [of newMemoryCacheService "''k''" noOptions 1000 literalJSON 1000
      "\<lambda>i. Inr JNull" 0]
  by (simp add: literalJSON_def literalParse_null noOptions_def buildKey_def Map_get_def expired_def
      effectiveTTL_def defaultTTL_def)


text \<open>
  C1, as the code has it. A key that holds a live, non-empty string which deserializes
  to a value other than \<^verbatim>\<open>null\<close> is a hit: that value is returned, the factory is not
  invoked and the store is unchanged. When the facade's \<^verbatim>\<open>get\<close> gives \<^verbatim>\<open>null\<close> and the
  factory returns a value, the factory is invoked exactly once, the value is returned,
  and its serialization is stored under the key with the expiry
  \<open>later + ttl * 1000\<close>, where \<open>ttl\<close> is \<^verbatim>\<open>options.ttl\<close>, or 3600 when that is missing or
  0; a \<^verbatim>\<open>get\<close> of the key up to that expiry returns the value, provided its serialization
  is not empty and deserializes back to it.
\<close>

theorem getOrSet_cache_aside:
  "(\<forall>e x. Map_get (cache s) (buildKey key (opt_prefix options)) = Some e \<and> \<not> expired now e
          \<and> entryValue e \<noteq> [] \<and> x \<noteq> JNull
          \<and> (if opt_serialize options \<noteq> Some False then JSON_parse J (entryValue e) = Inr x
               else x = JStr (entryValue e))
      \<longrightarrow> getOrSet J now later key factory options s = (Inr x, 0, s))
   \<and> (\<forall>v. fst (CacheService_get J now key options s) = JNull \<and> factory 0 = Inr v
      \<longrightarrow> fst (getOrSet J now later key factory options s) = Inr v
          \<and> fst (snd (getOrSet J now later key factory options s)) = 1
          \<and> Map_get (cache (snd (snd (getOrSet J now later key factory options s))))
                (buildKey key (opt_prefix options))
              = Some \<lparr>entryValue = (if opt_serialize options \<noteq> Some False then JSON_stringify J v
                                      else asString v),
                      expiresAt = later + effectiveTTL options * 1000\<rparr>
          \<and> (\<forall>later2. later2 \<le> later + effectiveTTL options * 1000
                 \<and> (if opt_serialize options \<noteq> Some False
                      then JSON_stringify J v \<noteq> [] \<and> JSON_parse J (JSON_stringify J v) = Inr v
                      else asString v \<noteq> [] \<and> v = JStr (asString v))
               \<longrightarrow> fst (CacheService_get J later2 key options
                          (snd (snd (getOrSet J now later key factory options s)))) = v))
   \<and> effectiveTTL options = (case opt_ttl options of None \<Rightarrow> 3600 | Some t \<Rightarrow> if t = 0 then 3600 else t)"
proof (intro conjI allI impI)
  fix e x
  assume a: "Map_get (cache s) (buildKey key (opt_prefix options)) = Some e \<and> \<not> expired now e
          \<and> entryValue e \<noteq> [] \<and> x \<noteq> JNull
          \<and> (if opt_serialize options \<noteq> Some False then JSON_parse J (entryValue e) = Inr x
               else x = JStr (entryValue e))"
  then have m: "Map_get (cache s) (buildKey key (opt_prefix options)) = Some e"
    and l: "\<not> expired now e" by simp_all
  have g: "CacheService_get J now key options s = (x, s)"
    using a by (auto simp: CacheService_get_live [OF m l])
  show "getOrSet J now later key factory options s = (Inr x, 0, s)"
    using a getOrSet_hit [of J now key options s later factory] by (simp add: g)
next
  fix v
  assume a: "fst (CacheService_get J now key options s) = JNull \<and> factory 0 = Inr v"
  let ?s1 = "snd (CacheService_get J now key options s)"
  let ?e = "\<lparr>entryValue = (if opt_serialize options \<noteq> Some False then JSON_stringify J v
                                      else asString v),
           expiresAt = later + effectiveTTL options * 1000\<rparr>"
  have r: "getOrSet J now later key factory options s
             = (Inr v, 1, snd (CacheService_set J later key v options ?s1))"
    using a getOrSet_miss_value [of J now key options s factory v later] by simp
  show "fst (getOrSet J now later key factory options s) = Inr v"
    by (simp add: r)
  show "fst (snd (getOrSet J now later key factory options s)) = 1"
    by (simp add: r)
  show m: "Map_get (cache (snd (snd (getOrSet J now later key factory options s))))
                (buildKey key (opt_prefix options)) = Some ?e"
    by (simp only: r snd_conv Map_get_CacheService_set)
  fix later2
  assume b: "later2 \<le> later + effectiveTTL options * 1000
                 \<and> (if opt_serialize options \<noteq> Some False
                      then JSON_stringify J v \<noteq> [] \<and> JSON_parse J (JSON_stringify J v) = Inr v
                      else asString v \<noteq> [] \<and> v = JStr (asString v))"
  then have l: "\<not> expired later2 ?e" by (simp add: expired_def)
  show "fst (CacheService_get J later2 key options
                          (snd (snd (getOrSet J now later key factory options s)))) = v"
    using b by (auto simp: CacheService_get_live [OF m l])
next
  show "effectiveTTL options = (case opt_ttl options of None \<Rightarrow> 3600 | Some t \<Rightarrow> if t = 0 then 3600 else t)"
    by (simp add: effectiveTTL_def defaultTTL_def split: option.splits)
qed

lemma literalParse_42: "literalParse ''42'' = Inr (JNum 42)"
proof -
  have "toString 42 = ''42''" by code_simp
  then show ?thesis
    using parseInt_toString [of 42] by (simp add: literalParse_def)
qed

lemma toString_7: "toString 7 = ''7''"
  by code_simp

lemma literalParse_7: "literalParse ''7'' = Inr (JNum 7)"
  using parseInt_toString [of 7] by (simp add: literalParse_def toString_7)

theorem getOrSet_cache_aside_witness:
  "getOrSet literalJSON 1000 1000 ''k'' (\<lambda>i. Inr (JNum 7)) noOptions
       \<lparr>cache = [(''k'', \<lparr>entryValue = ''42'', expiresAt = 0\<rparr>)], maxSize = 10000\<rparr>
     = (Inr (JNum 42), 0, \<lparr>cache = [(''k'', \<lparr>entryValue = ''42'', expiresAt = 0\<rparr>)], maxSize = 10000\<rparr>)
   \<and> fst (getOrSet literalJSON 1000 1005 ''k'' (\<lambda>i. Inr (JNum 7)) noOptions newMemoryCacheService)
       = Inr (JNum 7)
   \<and> fst (snd (getOrSet literalJSON 1000 1005 ''k'' (\<lambda>i. Inr (JNum 7)) noOptions newMemoryCacheService))
       = 1
   \<and> Map_get (cache (snd (snd (getOrSet literalJSON 1000 1005 ''k'' (\<lambda>i. Inr (JNum 7)) noOptions
                                   newMemoryCacheService)))) ''k''
       = Some \<lparr>entryValue = ''7'', expiresAt = 3601005\<rparr>
   \<and> fst (CacheService_get literalJSON 2000 ''k'' noOptions
            (snd (snd (getOrSet literalJSON 1000 1005 ''k'' (\<lambda>i. Inr (JNum 7)) noOptions
                         newMemoryCacheService)))) = JNum 7"
proof -
  let ?s0 = "\<lparr>cache = [(''k'', \<lparr>entryValue = ''42'', expiresAt = 0\<rparr>)], maxSize = 10000\<rparr>"
  let ?f = "\<lambda>i::nat. Inr (JNum 7) :: thrown + json"
  let ?r = "getOrSet literalJSON 1000 1005 ''k'' ?f noOptions newMemoryCacheService"
  have key: "buildKey ''k'' (opt_prefix noOptions) = ''k''"
    by (simp add: buildKey_def noOptions_def)
  have ser: "opt_serialize noOptions \<noteq> Some False"
    by (simp add: noOptions_def)
  have ttl: "effectiveTTL noOptions = 3600"
    by (simp add: effectiveTTL_def defaultTTL_def noOptions_def)
  have hit: "getOrSet literalJSON 1000 1000 ''k'' ?f noOptions ?s0 = (Inr (JNum 42), 0, ?s0)"
    using getOrSet_cache_aside [of ?s0 "''k''" noOptions 1000 literalJSON 1000 ?f]
    by (simp add: key ser Map_get_def expired_def literalJSON_def literalParse_42)
  have g: "fst (CacheService_get literalJSON 1000 ''k'' noOptions newMemoryCacheService) = JNull"
    by (simp add: CacheService_get_def get_def key newMemoryCacheService_def Map_get_def)
  have miss:
    "fst ?r = Inr (JNum 7) \<and> fst (snd ?r) = 1
     \<and> Map_get (cache (snd (snd ?r))) ''k'' = Some \<lparr>entryValue = ''7'', expiresAt = 3601005\<rparr>
     \<and> fst (CacheService_get literalJSON 2000 ''k'' noOptions (snd (snd ?r))) = JNum 7"
    using getOrSet_cache_aside [of newMemoryCacheService "''k''" noOptions 1000 literalJSON 1005 ?f] g
    by (simp add: key ser ttl literalJSON_def literalParse_7 toString_7)
  show ?thesis
    using hit miss by simp
qed

text \<open>
  The claim as the specification states it fails: the key holds the live string
  \<^verbatim>\<open>null\<close>, it is populated in the store, and \<^verbatim>\<open>getOrSet\<close> invokes the factory and
  returns the factory's value.
\<close>

theorem getOrSet_populated_null_counterexample:
  "fst (get 1000 ''k'' \<lparr>cache = [(''k'', \<lparr>entryValue = ''null'', expiresAt = 0\<rparr>)], maxSize = 10000\<rparr>)
     = Some ''null''
   \<and> fst (getOrSet literalJSON 1000 1000 ''k'' (\<lambda>i. Inr (JNum 7)) noOptions
            \<lparr>cache = [(''k'', \<lparr>entryValue = ''null'', expiresAt = 0\<rparr>)], maxSize = 10000\<rparr>)
       = Inr (JNum 7)
   \<and> fst (snd (getOrSet literalJSON 1000 1000 ''k'' (\<lambda>i. Inr (JNum 7)) noOptions
            \<lparr>cache = [(''k'', \<lparr>entryValue = ''null'', expiresAt = 0\<rparr>)], maxSize = 10000\<rparr>))
       = 1"
  by (simp add: getOrSet_def CacheService_get_def get_def buildKey_def noOptions_def Map_get_def
      expired_def literalJSON_def literalParse_null)


section \<open>The rate limiter\<close>

lemma canActivate_first:
  assumes "fst (get now key s) = None" and "0 < limit_max L"
  shows "canActivate now key L s =
     (Allowed, Some (max 0 (limit_max L - 1)), setex now key (limit_window L) ''1'' (snd (get now key s)))"
proof -
  obtain s1 where g: "get now key s = (None, s1)"
    using assms(1) by (cases "get now key s") auto
  show ?thesis
    using assms(2) by (simp add: canActivate_def g headerRemaining_def)
qed

lemma canActivate_counted:
  assumes m: "Map_get (cache s) key = Some \<lparr>entryValue = toString n, expiresAt = E\<rparr>"
    and live: "E = 0 \<or> now \<le> E" and n: "0 < n" "n < limit_max L"
  shows "canActivate now key L s =
     (Allowed, Some (max 0 (limit_max L - n - 1)),
      s\<lparr>cache := Map_set key \<lparr>entryValue = toString (n + 1), expiresAt = E\<rparr> (cache s)\<rparr>)"
proof -
  have "\<not> expired now \<lparr>entryValue = toString n, expiresAt = E\<rparr>"
    using live by (auto simp: expired_def)
  then have g: "get now key s = (Some (toString n), s)"
    using get_live [OF m] by simp
  have i: "incr now key s =
     (n + 1, s\<lparr>cache := Map_set key \<lparr>entryValue = toString (n + 1), expiresAt = E\<rparr> (cache s)\<rparr>)"
    using live by (auto simp: incr_result m currentValue_def keptExpiresAt_def parseInt_toString orZero_def)
  show ?thesis
    using n by (simp add: canActivate_def g toString_nonempty parseInt_toString headerRemaining_def i)
qed

lemma canActivate_rejected:
  assumes m: "Map_get (cache s) key = Some \<lparr>entryValue = toString n, expiresAt = E\<rparr>"
    and live: "E = 0 \<or> now \<le> E" and n: "limit_max L \<le> n"
  shows "canActivate now key L s =
     (TooManyRequests (limit_window L - getTTL now key s) (limit_max L) 0
        (now + (limit_window L - getTTL now key s) * 1000),
      Some (max 0 (limit_max L - n - 1)), s)"
proof -
  have "\<not> expired now \<lparr>entryValue = toString n, expiresAt = E\<rparr>"
    using live by (auto simp: expired_def)
  then have g: "get now key s = (Some (toString n), s)"
    using get_live [OF m] by simp
  show ?thesis
    using n by (simp add: canActivate_def g toString_nonempty parseInt_toString headerRemaining_def Let_def)
qed

lemma getTTL_bounds:
  assumes "Map_get (cache s) key = Some e" and "expiresAt e \<le> now + w * 1000" and "0 \<le> w"
  shows "0 \<le> getTTL now key s \<and> getTTL now key s \<le> w"
proof -
  have "(expiresAt e - now) div 1000 \<le> (w * 1000) div 1000"
    using assms(2) by (intro zdiv_mono1) simp_all
  then have "(expiresAt e - now) div 1000 \<le> w" by simp
  then show ?thesis
    using assms(1,3) by (auto simp: getTTL_def ttl_def Let_def)
qed

text \<open>
  C2. Under the policy \<open>max = 5\<close>, \<open>window = 60\<close>, six requests of one key arrive in
  order within the window that the first request opens, and no counter is live before
  the first. The first five are admitted. The sixth finds the count 5 and is rejected
  with \<open>retryAfter = 60 - getTTL\<close>, a value from 0 to 60, \<open>limit = 5\<close> and
  \<open>remaining = 0\<close>; it leaves the store as it found it, the counter still 5.
\<close>

theorem rate_limit_boundary:
  assumes fresh: "fst (get t1 key s) = None"
    and order: "t1 \<le> t2" "t2 \<le> t3" "t3 \<le> t4" "t4 \<le> t5" "t5 \<le> t6"
    and window: "t6 \<le> t1 + 60 * 1000"
  shows
    "let L = \<lparr>limit_max = 5, limit_window = 60\<rparr>;
         s5 = snd (requests [t1, t2, t3, t4, t5] key L s);
         r = 60 - getTTL t6 key s5
     in fst (requests [t1, t2, t3, t4, t5] key L s) = [Allowed, Allowed, Allowed, Allowed, Allowed]
        \<and> Map_get (cache s5) key = Some \<lparr>entryValue = ''5'', expiresAt = t1 + 60 * 1000\<rparr>
        \<and> canActivate t6 key L s5 = (TooManyRequests r 5 0 (t6 + r * 1000), Some 0, s5)
        \<and> 0 \<le> r \<and> r \<le> 60
        \<and> fst (requests [t1, t2, t3, t4, t5, t6] key L s)
            = [Allowed, Allowed, Allowed, Allowed, Allowed, TooManyRequests r 5 0 (t6 + r * 1000)]"
proof -
  define L where "L = \<lparr>limit_max = 5, limit_window = 60\<rparr>"
  define E where "E = t1 + 60 * 1000"
  define bump where
    "bump n st = st\<lparr>cache := Map_set key \<lparr>entryValue = toString (n + 1), expiresAt = E\<rparr> (cache st)\<rparr>"
    for n and st :: MemoryCacheService
  define s1 where "s1 = setex t1 key 60 ''1'' (snd (get t1 key s))"
  define s2 where "s2 = bump 1 s1"
  define s3 where "s3 = bump 2 s2"
  define s4 where "s4 = bump 3 s3"
  define s5 where "s5 = bump 4 s4"
  have Lmax: "limit_max L = 5" and Lwin: "limit_window L = 60" by (simp_all add: L_def)
  have bump_get: "Map_get (cache (bump n st)) key = Some \<lparr>entryValue = toString (n + 1), expiresAt = E\<rparr>"
    for n st by (simp add: bump_def Map_get_Map_set)
  have step: "canActivate now key L st = (Allowed, Some (max 0 (5 - n - 1)), bump n st)"
    if "Map_get (cache st) key = Some \<lparr>entryValue = toString n, expiresAt = E\<rparr>"
      and "now \<le> E" and "0 < n" and "n < 5" for now st n
    using canActivate_counted [of st key n E now L] that by (simp add: Lmax bump_def)
  have c1: "canActivate t1 key L s = (Allowed, Some 4, s1)"
    using canActivate_first [OF fresh, of L] by (simp add: Lmax Lwin s1_def)
  have m1: "Map_get (cache s1) key = Some \<lparr>entryValue = toString 1, expiresAt = E\<rparr>"
    by (simp add: s1_def Map_get_setex toString_1 E_def)
  have c2: "canActivate t2 key L s1 = (Allowed, Some 3, s2)"
    using step [OF m1, of t2] order window by (simp add: s2_def E_def)
  have m2: "Map_get (cache s2) key = Some \<lparr>entryValue = toString 2, expiresAt = E\<rparr>"
    using bump_get [of 1 s1] by (simp add: s2_def)
  have c3: "canActivate t3 key L s2 = (Allowed, Some 2, s3)"
    using step [OF m2, of t3] order window by (simp add: s3_def E_def)
  have m3: "Map_get (cache s3) key = Some \<lparr>entryValue = toString 3, expiresAt = E\<rparr>"
    using bump_get [of 2 s2] by (simp add: s3_def)
  have c4: "canActivate t4 key L s3 = (Allowed, Some 1, s4)"
    using step [OF m3, of t4] order window by (simp add: s4_def E_def)
  have m4: "Map_get (cache s4) key = Some \<lparr>entryValue = toString 4, expiresAt = E\<rparr>"
    using bump_get [of 3 s3] by (simp add: s4_def)
  have c5: "canActivate t5 key L s4 = (Allowed, Some 0, s5)"
    using step [OF m4, of t5] order window by (simp add: s5_def E_def)
  have m5: "Map_get (cache s5) key = Some \<lparr>entryValue = toString 5, expiresAt = E\<rparr>"
    using bump_get [of 4 s4] by (simp add: s5_def)
  have t5: "toString 5 = ''5''" by code_simp
  define r where "r = 60 - getTTL t6 key s5"
  have c6: "canActivate t6 key L s5 = (TooManyRequests r 5 0 (t6 + r * 1000), Some 0, s5)"
    using canActivate_rejected [OF m5, of t6 L] window by (simp add: Lmax Lwin r_def E_def)
  have b: "0 \<le> r \<and> r \<le> 60"
    using getTTL_bounds [OF m5, of t6 60] order by (simp add: r_def E_def)
  have req5: "requests [t1, t2, t3, t4, t5] key L s = ([Allowed, Allowed, Allowed, Allowed, Allowed], s5)"
    by (simp add: c1 c2 c3 c4 c5)
  have req6: "requests [t1, t2, t3, t4, t5, t6] key L s
      = ([Allowed, Allowed, Allowed, Allowed, Allowed, TooManyRequests r 5 0 (t6 + r * 1000)], s5)"
    by (simp add: c1 c2 c3 c4 c5 c6)
  show ?thesis
    unfolding Let_def L_def [symmetric] req5 req6 fst_conv snd_conv r_def [symmetric]
    using m5 c6 b by (simp add: t5 E_def)
qed

theorem rate_limit_boundary_witness:
  "fst (requests [0, 1000, 2000, 3000, 4000, 5500] ''rate_limit:u1:/projects''
          \<lparr>limit_max = 5, limit_window = 60\<rparr> newMemoryCacheService)
     = [Allowed, Allowed, Allowed, Allowed, Allowed, TooManyRequests 6 5 0 11500]"
proof -
  let ?L = "\<lparr>limit_max = 5, limit_window = 60\<rparr>"
  let ?k = "''rate_limit:u1:/projects''"
  let ?s5 = "snd (requests [0, 1000, 2000, 3000, 4000] ?k ?L newMemoryCacheService)"
  have fresh: "fst (get 0 ?k newMemoryCacheService) = None"
    by (simp add: get_def newMemoryCacheService_def Map_get_def)
  have ord: "(0::int) \<le> 1000" "(1000::int) \<le> 2000" "(2000::int) \<le> 3000" "(3000::int) \<le> 4000"
    "(4000::int) \<le> 5500" "(5500::int) \<le> 0 + 60 * 1000"
    by simp_all
  note th = rate_limit_boundary [OF fresh ord, unfolded Let_def]
  from th have m: "Map_get (cache ?s5) ?k = Some \<lparr>entryValue = ''5'', expiresAt = 60000\<rparr>"
    by (simp del: requests.simps)
  have "getTTL 5500 ?k ?s5 = 54"
    by (simp add: getTTL_def ttl_def m Let_def del: requests.simps)
  with th show ?thesis
    by (simp del: requests.simps)
qed


section \<open>Order and ranks of the leaderboard\<close>

lemma orderKey_le_ranksBefore:
  "orderKey r \<le> orderKey r' \<Longrightarrow> ranksBefore (toEntry (i, r)) (toEntry (j, r'))"
  by (auto simp: orderKey_def ranksBefore_def toEntry_def)

lemma queryOverall_sorted: "sorted (map orderKey (queryOverall dateFilter db))"
  by (simp add: queryOverall_def)

lemma entries_sorted:
  assumes "sorted (map orderKey rs)"
  shows "sorted_wrt ranksBefore (map toEntry (enumerate n rs))"
proof -
  have "ranksBefore (map toEntry (enumerate n rs) ! i) (map toEntry (enumerate n rs) ! j)"
    if "i < j" and "j < length rs" for i j
  proof -
    have "orderKey (rs ! i) \<le> orderKey (rs ! j)"
      using assms that sorted_nth_mono [of "map orderKey rs" i j] by simp
    then show ?thesis
      using that by (simp add: nth_enumerate_eq orderKey_le_ranksBefore)
  qed
  then show ?thesis
    by (simp add: sorted_wrt_iff_nth_less)
qed

lemma entries_rank: "map rank (map toEntry (enumerate 0 rs)) = [1..<Suc (length rs)]"
proof -
  have r: "rank (toEntry p) = Suc (fst p)" for p
    by (cases p) (simp add: toEntry_def)
  have "map rank (map toEntry (enumerate 0 rs)) = map (\<lambda>p. Suc (fst p)) (enumerate 0 rs)"
    by (simp add: r o_def)
  also have "\<dots> = map Suc (map fst (enumerate 0 rs))"
    by (simp only: map_map o_def)
  also have "\<dots> = map Suc [0..<length rs]"
    by (simp only: map_fst_enumerate add_0)
  also have "\<dots> = [1..<Suc (length rs)]"
    by (simp only: map_Suc_upt One_nat_def)
  finally show ?thesis .
qed

text \<open>
  C3. The entries of the overall leaderboard are in the order of the three keys, each
  descending: total score, then approved submissions, then average score. The rank of
  an entry is its position counted from 1, so the ranks are \<open>1, 2, ..., n\<close>, strictly
  increasing and all different. For \<open>U1\<close> with two approved submissions and \<open>U2\<close> with
  three, both with a total score of 100, \<open>U2\<close> has rank 1 and \<open>U1\<close> rank 2.
\<close>

theorem leaderboard_order_and_rank:
  "sorted_wrt ranksBefore (calculateOverallLeaderboard now timeRange db)
   \<and> map rank (calculateOverallLeaderboard now timeRange db)
       = [1..<Suc (length (calculateOverallLeaderboard now timeRange db))]
   \<and> sorted_wrt (<) (map rank (calculateOverallLeaderboard now timeRange db))
   \<and> distinct (map rank (calculateOverallLeaderboard now timeRange db))
   \<and> map (\<lambda>e. (userId e, totalScore e, approvedSubmissions e, rank e))
        (calculateOverallLeaderboard 0 None
           \<lparr>users =
              [\<lparr>user_id = ''U1'', firstName = ''A'', lastName = ''A'', email = ''a@x'',
                avatarUrl = None, user_status = ACTIVE\<rparr>,
               \<lparr>user_id = ''U2'', firstName = ''B'', lastName = ''B'', email = ''b@x'',
                avatarUrl = None, user_status = ACTIVE\<rparr>],
            submissions =
              [\<lparr>submission_id = ''s1'', submission_userId = ''U1'', score = Some 50,
                submission_status = APPROVED, createdAt = 1\<rparr>,
               \<lparr>submission_id = ''s2'', submission_userId = ''U1'', score = Some 50,
                submission_status = APPROVED, createdAt = 2\<rparr>,
               \<lparr>submission_id = ''s3'', submission_userId = ''U2'', score = Some 40,
                submission_status = APPROVED, createdAt = 3\<rparr>,
               \<lparr>submission_id = ''s4'', submission_userId = ''U2'', score = Some 30,
                submission_status = APPROVED, createdAt = 4\<rparr>,
               \<lparr>submission_id = ''s5'', submission_userId = ''U2'', score = Some 30,
                submission_status = APPROVED, createdAt = 5\<rparr>],
            badges = []\<rparr>)
       = [(''U2'', 100, 3, 1), (''U1'', 100, 2, 2)]"
proof -
  let ?es = "calculateOverallLeaderboard now timeRange db"
  let ?rs = "queryOverall (getDateFilter now timeRange) db"
  have es: "?es = map toEntry (enumerate 0 ?rs)"
    by (simp add: calculateOverallLeaderboard_def Let_def)
  have len: "length ?es = length ?rs"
    by (simp add: es)
  have order: "sorted_wrt ranksBefore ?es"
    unfolding es by (rule entries_sorted) (rule queryOverall_sorted)
  have ranks: "map rank ?es = [1..<Suc (length ?es)]"
    unfolding len unfolding es by (rule entries_rank)
  have strict: "sorted_wrt (<) (map rank ?es)"
    unfolding ranks by (rule sorted_wrt_upt)
  have different: "distinct (map rank ?es)"
    unfolding ranks by (rule distinct_upt)
  have example:
    "map (\<lambda>e. (userId e, totalScore e, approvedSubmissions e, rank e))
        (calculateOverallLeaderboard 0 None
           \<lparr>users =
              [\<lparr>user_id = ''U1'', firstName = ''A'', lastName = ''A'', email = ''a@x'',
                avatarUrl = None, user_status = ACTIVE\<rparr>,
               \<lparr>user_id = ''U2'', firstName = ''B'', lastName = ''B'', email = ''b@x'',
                avatarUrl = None, user_status = ACTIVE\<rparr>],
            submissions =
              [\<lparr>submission_id = ''s1'', submission_userId = ''U1'', score = Some 50,
                submission_status = APPROVED, createdAt = 1\<rparr>,
               \<lparr>submission_id = ''s2'', submission_userId = ''U1'', score = Some 50,
                submission_status = APPROVED, createdAt = 2\<rparr>,
               \<lparr>submission_id = ''s3'', submission_userId = ''U2'', score = Some 40,
                submission_status = APPROVED, createdAt = 3\<rparr>,
               \<lparr>submission_id = ''s4'', submission_userId = ''U2'', score = Some 30,
                submission_status = APPROVED, createdAt = 4\<rparr>,
               \<lparr>submission_id = ''s5'', submission_userId = ''U2'', score = Some 30,
                submission_status = APPROVED, createdAt = 5\<rparr>],
            badges = []\<rparr>)
       = [(''U2'', 100, 3, 1), (''U1'', 100, 2, 2)]"
    by (simp add: calculateOverallLeaderboard_def queryOverall_def groupRow_def joinedRows_def
        leftJoin_def getDateFilter_def s_column_def whenApproved_def sql_SUM_def sql_COUNT_def
        sql_AVG_def sql_MAX_def sql_COALESCE_def nonNull_def toEntry_def enumerate_eq_zip
        orderKey_def)
  show ?thesis
    using order ranks strict different example by (intro conjI)
qed

end
